theory Spec2Isabelle
  imports Complex_Main "HOL-Library.List_Lexorder" "HOL-Library.Multiset"
begin

section \<open>Koopman eigenfunctions: a shallow embedding of koopman\_eigenfunctions.py\<close>

text \<open>
  The class \<open>KoopmanEigenfunctions\<close> of \<open>src/core/learning/koopman_eigenfunctions.py\<close> is
  modelled by a record of its attributes and by one HOL function per method, with the object
  passed in and returned explicitly. Python exceptions are values of the type \<open>error\<close>;
  a method that can raise returns \<open>error + result\<close>, with \<open>Inl\<close> for the exception. The
  object as an exception leaves it is not tracked.

  Conventions of the model:
  \<^item> a NumPy float64 entry is a \<open>real\<close>: rounding, infinities and NaN are not modelled, and
    division follows HOL (\<open>x / 0 = 0\<close>) where NumPy returns \<open>inf\<close> or \<open>nan\<close>;
  \<^item> the state dimension \<open>n\<close> and \<open>max_power\<close> are naturals (the constructor documents
    them as a number of states and a maximal exponent);
  \<^item> \<open>numpy.linalg.eig\<close>, the function computed by the torch network and
    \<open>differentiate_vec\<close> are outside the file and are parameters of the model.
\<close>

subsection \<open>Exceptions\<close>

datatype error =
    TypeError | AttributeError | ValueError | IndexError | RuntimeError
  | AssertionError | LinAlgError

definition bind_err :: "error + 'a \<Rightarrow> ('a \<Rightarrow> error + 'b) \<Rightarrow> error + 'b" where
  "bind_err r f = (case r of Inl e \<Rightarrow> Inl e | Inr x \<Rightarrow> f x)"

subsection \<open>Two-dimensional NumPy arrays\<close>

text \<open>
  A 2-D array carries its shape, so that arrays with a zero dimension keep the other one.
  \<open>entries\<close> is the list of rows. Every array the operations below build is well formed
  (\<open>wf_nd\<close>). A 1-D array is a plain list.
\<close>

record 'a ndarray =
  nrows :: nat
  ncols :: nat
  entries :: "'a list list"

definition wf_nd :: "'a ndarray \<Rightarrow> bool" where
  "wf_nd A = (length (entries A) = nrows A \<and> (\<forall>r \<in> set (entries A). length r = ncols A))"

definition item :: "'a ndarray \<Rightarrow> nat \<Rightarrow> nat \<Rightarrow> 'a" where
  "item A i j = entries A ! i ! j"

definition mk_nd :: "nat \<Rightarrow> nat \<Rightarrow> (nat \<Rightarrow> nat \<Rightarrow> 'a) \<Rightarrow> 'a ndarray" where
  "mk_nd r c f = \<lparr>nrows = r, ncols = c, entries = map (\<lambda>i. map (\<lambda>j. f i j) [0..<c]) [0..<r]\<rparr>"

definition np_array :: "'a list list \<Rightarrow> 'a ndarray" where
  \<comment> \<open>\<open>array(rows)\<close> on a list of equally long rows; of the empty list, an array with no entry\<close>
  "np_array rows =
     \<lparr>nrows = length rows, ncols = (case rows of [] \<Rightarrow> 0 | r # _ \<Rightarrow> length r), entries = rows\<rparr>"

definition np_transpose :: "'a ndarray \<Rightarrow> 'a ndarray" where
  "np_transpose A = mk_nd (ncols A) (nrows A) (\<lambda>i j. item A j i)"

definition np_ones :: "nat \<Rightarrow> nat \<Rightarrow> real ndarray" where
  "np_ones r c = mk_nd r c (\<lambda>i j. 1)"

definition np_dot :: "real ndarray \<Rightarrow> real ndarray \<Rightarrow> error + real ndarray" where
  \<comment> \<open>\<open>dot\<close> of two 2-D arrays is the matrix product; the inner dimensions must agree\<close>
  "np_dot A B =
     (if ncols A = nrows B
      then Inr (mk_nd (nrows A) (ncols B) (\<lambda>i j. sum_list (map (\<lambda>k. item A i k * item B k j) [0..<ncols A])))
      else Inl ValueError)"

definition bc_compat :: "nat \<Rightarrow> nat \<Rightarrow> bool" where
  "bc_compat a b = (a = b \<or> a = 1 \<or> b = 1)"

definition bc_dim :: "nat \<Rightarrow> nat \<Rightarrow> nat" where
  "bc_dim a b = (if a = 1 then b else a)"

definition bc_at :: "'a ndarray \<Rightarrow> nat \<Rightarrow> nat \<Rightarrow> 'a" where
  \<comment> \<open>a dimension of size 1 is stretched\<close>
  "bc_at A i j = item A (if nrows A = 1 then 0 else i) (if ncols A = 1 then 0 else j)"

definition broadcast2 :: "('a \<Rightarrow> 'b \<Rightarrow> 'c) \<Rightarrow> 'a ndarray \<Rightarrow> 'b ndarray \<Rightarrow> error + 'c ndarray" where
  \<comment> \<open>an elementwise binary ufunc (\<open>power\<close>, \<open>divide\<close>, \<open>-\<close>) on two 2-D arrays\<close>
  "broadcast2 f A B =
     (if bc_compat (nrows A) (nrows B) \<and> bc_compat (ncols A) (ncols B)
      then Inr (mk_nd (bc_dim (nrows A) (nrows B)) (bc_dim (ncols A) (ncols B))
                  (\<lambda>i j. f (bc_at A i j) (bc_at B i j)))
      else Inl ValueError)"

definition np_power :: "real ndarray \<Rightarrow> nat ndarray \<Rightarrow> error + real ndarray" where
  "np_power = broadcast2 (\<lambda>x p. x ^ p)"

definition np_divide :: "real ndarray \<Rightarrow> real ndarray \<Rightarrow> error + real ndarray" where
  "np_divide = broadcast2 (\<lambda>x y. x / y)"

definition np_prod_axis0 :: "real ndarray \<Rightarrow> real list" where
  \<comment> \<open>\<open>prod(A, axis=0)\<close>: the product down each column\<close>
  "np_prod_axis0 A = map (\<lambda>j. prod_list (map (\<lambda>i. item A i j) [0..<nrows A])) [0..<ncols A]"

definition column :: "'a ndarray \<Rightarrow> nat \<Rightarrow> error + 'a list" where
  \<comment> \<open>\<open>A[:, ii]\<close> for \<open>ii \<ge> 0\<close>\<close>
  "column A ii = (if ii < ncols A then Inr (map (\<lambda>i. item A i ii) [0..<nrows A]) else Inl IndexError)"

definition reshape_n1 :: "'a list \<Rightarrow> nat \<Rightarrow> error + 'a ndarray" where
  \<comment> \<open>\<open>v.reshape((n,1))\<close> of a 1-D array\<close>
  "reshape_n1 v n = (if length v = n then Inr (mk_nd n 1 (\<lambda>i j. v ! i)) else Inl ValueError)"

definition concatenate_axis1 :: "'a ndarray \<Rightarrow> 'a ndarray \<Rightarrow> error + 'a ndarray" where
  "concatenate_axis1 A B =
     (if nrows A = nrows B
      then Inr (mk_nd (nrows A) (ncols A + ncols B)
                  (\<lambda>i j. if j < ncols A then item A i j else item B i (j - ncols A)))
      else Inl ValueError)"

definition np_sub1 :: "real list \<Rightarrow> real list \<Rightarrow> error + real list" where
  \<comment> \<open>\<open>u - v\<close> on 1-D arrays, with broadcasting of a length-1 operand\<close>
  "np_sub1 u v =
     (if bc_compat (length u) (length v)
      then Inr (map (\<lambda>i. u ! (if length u = 1 then 0 else i) - v ! (if length v = 1 then 0 else i))
                  [0..<bc_dim (length u) (length v)])
      else Inl ValueError)"

definition map_nd :: "('a \<Rightarrow> 'b) \<Rightarrow> 'a ndarray \<Rightarrow> 'b ndarray" where
  "map_nd f A = \<lparr>nrows = nrows A, ncols = ncols A, entries = map (map f) (entries A)\<rparr>"

definition any_nd :: "('a \<Rightarrow> bool) \<Rightarrow> 'a ndarray \<Rightarrow> bool" where
  "any_nd P A = list_ex (list_ex P) (entries A)"

subsection \<open>itertools and numpy.unique\<close>

text \<open>
  \<open>combinations_with_replacement(p, r)\<close> yields the \<open>r\<close>-tuples of elements of \<open>p\<close> at
  non-decreasing positions, in lexicographic order of the positions;
  \<open>permutations(c, r)\<close> yields the \<open>r\<close>-tuples of elements of \<open>c\<close> at pairwise different
  positions, in lexicographic order of the positions (equal values at different
  positions give equal tuples, which are all kept).
\<close>

fun combinations_with_replacement :: "'a list \<Rightarrow> nat \<Rightarrow> 'a list list" where
  "combinations_with_replacement xs 0 = [[]]"
| "combinations_with_replacement [] (Suc r) = []"
| "combinations_with_replacement (x # xs) (Suc r) =
     map ((#) x) (combinations_with_replacement (x # xs) r) @ combinations_with_replacement xs (Suc r)"

fun picks :: "'a list \<Rightarrow> ('a \<times> 'a list) list" where
  \<comment> \<open>each element with the list of the others, by position\<close>
  "picks [] = []"
| "picks (x # xs) = (x, xs) # map (\<lambda>(y, ys). (y, x # ys)) (picks xs)"

fun permutations :: "'a list \<Rightarrow> nat \<Rightarrow> 'a list list" where
  "permutations xs 0 = [[]]"
| "permutations xs (Suc r) = concat (map (\<lambda>(y, ys). map ((#) y) (permutations ys r)) (picks xs))"

definition unique_rows :: "nat list list \<Rightarrow> nat list list" where
  \<comment> \<open>\<open>unique(A, axis=0)\<close>: the rows sorted lexicographically, each kept once\<close>
  "unique_rows rows = remdups_adj (sort rows)"

definition power_rows :: "nat \<Rightarrow> nat \<Rightarrow> nat list list" where
  \<comment> \<open>lines 64 to 67: the rows of \<open>powers\<close>\<close>
  "power_rows n max_power =
     (let p = [0..<max_power + 1];
          combinations = combinations_with_replacement p n;
          powers = map (\<lambda>c. permutations c n) combinations
      in unique_rows (concat powers))"

subsection \<open>The diffeomorphism network\<close>

datatype module = Linear nat nat | ReLU | Dropout real

datatype dtype = Float32 | Float64

text \<open>
  \<open>nn.Sequential\<close> keeps its modules in insertion order under their names. The function the
  network computes, given its mode, is the field \<open>forward\<close>; it depends on the weights,
  which the source never reads.
\<close>

record network =
  modules :: "(string \<times> module) list"
  training :: bool
  param_dtype :: dtype
  forward :: "bool \<Rightarrow> real ndarray \<Rightarrow> real ndarray"

subsection \<open>The object\<close>

text \<open>
  \<open>self_basis\<close> records whether \<open>self.basis\<close> holds the lambda of line 51; the lambda reads
  \<open>self\<close> when it is called, so its body is the function \<open>basis\<close> below, applied to the
  object at the time of the call. \<open>self_eigfunc_lin = None\<close> stands for the attribute
  \<open>eigfunc_lin\<close> not existing (the constructor sets \<open>eigfuncs_lin\<close>, another name).
  \<open>emitted\<close> is the list of warnings the process has issued.
\<close>

record koopman =
  self_n :: nat
  self_max_power :: nat
  self_A_cl :: "real ndarray"
  self_BK :: "real ndarray"
  self_Nlift :: "nat option"
  self_Lambda :: "real list option"
  self_basis :: bool
  self_eigfunc_lin :: "(real ndarray \<Rightarrow> error + real list) option"
  self_scale_func :: "(real ndarray \<Rightarrow> error + real ndarray) option"
  self_diffeomorphism_model :: "network option"
  emitted :: "string list"

definition init :: "nat \<Rightarrow> nat \<Rightarrow> real ndarray \<Rightarrow> real ndarray \<Rightarrow> string list \<Rightarrow> koopman" where
  "init n max_power A_cl BK warns =
     \<lparr>self_n = n, self_max_power = max_power, self_A_cl = A_cl, self_BK = BK,
      self_Nlift = None, self_Lambda = None, self_basis = False, self_eigfunc_lin = None,
      self_scale_func = None, self_diffeomorphism_model = None, emitted = warns\<rparr>"

subsection \<open>construct\_linear\_eigfuncs\<close>

type_synonym eig_fn = "real ndarray \<Rightarrow> error + (complex list \<times> complex ndarray)"

definition iscomplex :: "complex \<Rightarrow> bool" where
  "iscomplex z = (Im z \<noteq> 0)"

definition linfunc :: "real ndarray \<Rightarrow> real ndarray \<Rightarrow> error + real ndarray" where
  \<comment> \<open>line 69, with the captured \<open>w\<close> as first argument\<close>
  "linfunc w q = np_dot (np_transpose w) q"

definition eigfunc_lin :: "real ndarray \<Rightarrow> nat ndarray \<Rightarrow> real ndarray \<Rightarrow> error + real list" where
  \<comment> \<open>line 70, with the captured \<open>w\<close> and \<open>powers\<close> as first arguments\<close>
  "eigfunc_lin w powers q =
     bind_err (linfunc w q) (\<lambda>lq.
     bind_err (np_power lq (np_transpose powers)) (\<lambda>P.
     Inr (np_prod_axis0 P)))"

definition Warning_expr :: "string \<Rightarrow> string list \<Rightarrow> string list" where
  \<comment> \<open>the expression statement \<open>Warning(msg)\<close> of line 60: it builds an exception object
      and drops it; nothing is raised, and the warnings issued so far stay as they are\<close>
  "Warning_expr msg warns = warns"

definition suppress_complex ::
  "complex list \<Rightarrow> complex ndarray \<Rightarrow> string list \<Rightarrow> real list \<times> real ndarray \<times> string list" where
  \<comment> \<open>lines 59 to 62. When the test is false, \<open>eig\<close> has returned arrays of real type,
      whose entries are the real parts.\<close>
  "suppress_complex lambd w warns =
     (if list_ex iscomplex lambd \<or> any_nd iscomplex w
      then (map Re lambd, map_nd Re w,
            Warning_expr ''Complex eigenvalues and/or eigenvalues. Complex part supressed.'' warns)
      else (map Re lambd, map_nd Re w, warns))"

definition calc_Lambda :: "real list \<Rightarrow> nat \<Rightarrow> nat ndarray \<Rightarrow> error + real list" where
  \<comment> \<open>line 72\<close>
  "calc_Lambda lambd n powers =
     bind_err (reshape_n1 (map exp lambd) n) (\<lambda>E.
     bind_err (np_power E (np_transpose powers)) (\<lambda>P.
     Inr (map ln (np_prod_axis0 P))))"

definition construct_linear_eigfuncs ::
  "eig_fn \<Rightarrow> koopman \<Rightarrow> error + ((real ndarray \<Rightarrow> error + real list) \<times> koopman)" where
  "construct_linear_eigfuncs eig self =
     bind_err (eig (self_A_cl self)) (\<lambda>(lambd0, v).
     bind_err (eig (np_transpose (self_A_cl self))) (\<lambda>(_, w0).
     (case suppress_complex lambd0 w0 (emitted self) of (lambd, w, warns) \<Rightarrow>
     (let powers = np_array (power_rows (self_n self) (self_max_power self));
          f = eigfunc_lin w powers
      in bind_err (f (np_ones (self_n self) 1)) (\<lambda>one_lift.
         bind_err (calc_Lambda lambd (self_n self) powers) (\<lambda>Lam.
         Inr (f, self\<lparr>self_Nlift := Some (length one_lift), self_Lambda := Some Lam,
                       emitted := warns\<rparr>)))))))"

subsection \<open>construct\_scaling\_function\<close>

definition construct_scaling_function ::
  "koopman \<Rightarrow> real list option \<Rightarrow> real list option \<Rightarrow> error + (real ndarray \<Rightarrow> error + real ndarray)" where
  \<comment> \<open>\<open>ub\<close> and \<open>lb\<close> default to \<open>None\<close>, on which \<open>-\<close> raises\<close>
  "construct_scaling_function self ub lb =
     (case (ub, lb) of
        (Some u, Some l) \<Rightarrow>
          bind_err (np_sub1 u l) (\<lambda>d.
          bind_err (reshape_n1 d (self_n self)) (\<lambda>scale_factor.
          Inr (\<lambda>q. np_divide q scale_factor)))
      | _ \<Rightarrow> Inl TypeError)"

subsection \<open>diffeomorphism\<close>

definition net_eval :: "network \<Rightarrow> network" where
  "net_eval m = m\<lparr>training := False\<rparr>"

definition accepts :: "network \<Rightarrow> nat \<Rightarrow> bool" where
  \<comment> \<open>torch rejects a batch whose width is not the input width of the first linear layer\<close>
  "accepts m k = (case modules m of (_, Linear i _) # _ \<Rightarrow> k = i | _ \<Rightarrow> True)"

definition net_call :: "network \<Rightarrow> real ndarray \<Rightarrow> error + real ndarray" where
  "net_call m x =
     (if accepts m (ncols x) then Inr (forward m (training m) x) else Inl RuntimeError)"

definition diffeomorphism ::
  "koopman \<Rightarrow> real ndarray \<Rightarrow> real ndarray \<Rightarrow> error + (real ndarray \<times> koopman)" where
  \<comment> \<open>lines 83 to 90: \<open>diff_pred\<close> is computed and the return statement does not use it\<close>
  "diffeomorphism self q0 q_d0 =
     (let q = np_transpose q0;
          q_d = np_transpose q_d0
      in case self_diffeomorphism_model self of
           None \<Rightarrow> Inl AttributeError
         | Some m \<Rightarrow>
             (let self' = self\<lparr>self_diffeomorphism_model := Some (net_eval m)\<rparr>
              in bind_err (concatenate_axis1 q q_d) (\<lambda>input.
                 bind_err (net_call (net_eval m) input) (\<lambda>diff_pred.
                 Inr (np_transpose q, self')))))"

subsection \<open>build\_diffeomorphism\_model\<close>

fun str :: "nat \<Rightarrow> string" where
  "str k = (if k < 10 then [''0123456789'' ! k]
            else str (k div 10) @ [''0123456789'' ! (k mod 10)])"

fun add_module :: "(string \<times> module) list \<Rightarrow> string \<Rightarrow> module \<Rightarrow> (string \<times> module) list" where
  \<comment> \<open>a new name is appended, a known name keeps its place and takes the new module\<close>
  "add_module [] name m = [(name, m)]"
| "add_module ((k, v) # ms) name m =
     (if k = name then (k, m) # ms else (k, v) # add_module ms name m)"

definition nn_Dropout :: "real \<Rightarrow> error + module" where
  "nn_Dropout p = (if p < 0 \<or> 1 < p then Inl ValueError else Inr (Dropout p))"

definition hidden_step ::
  "nat \<Rightarrow> nat \<Rightarrow> real \<Rightarrow> nat \<Rightarrow> (string \<times> module) list \<Rightarrow> error + (string \<times> module) list" where
  \<comment> \<open>the body of the loop of lines 109 to 113\<close>
  "hidden_step n_hidden_layers H dropout_prob ii ms =
     (let ms1 = add_module ms (''dense_'' @ str (ii + 1)) (Linear H H);
          ms2 = add_module ms1 (''relu_'' @ str (ii + 1)) ReLU
      in if int ii < int n_hidden_layers - 1
         then bind_err (nn_Dropout dropout_prob) (\<lambda>d.
              Inr (add_module ms2 (''dropout_'' @ str (ii + 1)) d))
         else Inr ms2)"

fun hidden_loop ::
  "nat \<Rightarrow> nat \<Rightarrow> real \<Rightarrow> nat list \<Rightarrow> (string \<times> module) list \<Rightarrow> error + (string \<times> module) list" where
  "hidden_loop n_hidden_layers H dropout_prob [] ms = Inr ms"
| "hidden_loop n_hidden_layers H dropout_prob (ii # iis) ms =
     bind_err (hidden_step n_hidden_layers H dropout_prob ii ms)
       (hidden_loop n_hidden_layers H dropout_prob iis)"

definition build_diffeomorphism_model ::
  "(bool \<Rightarrow> real ndarray \<Rightarrow> real ndarray) \<Rightarrow> koopman \<Rightarrow> nat \<Rightarrow> nat \<Rightarrow> nat \<Rightarrow> real \<Rightarrow> error + koopman" where
  \<comment> \<open>\<open>fwd\<close> is the function the freshly initialised network computes. A new module is in
      training mode with float32 parameters; \<open>.double()\<close> makes them float64.
      \<open>from_numpy(self.A_cl)\<close> keeps the entries of \<open>A_cl\<close>.\<close>
  "build_diffeomorphism_model fwd self n_hidden_layers layer_width batch_size dropout_prob =
     (let d_h_in = 2 * self_n self; H = layer_width; d_h_out = self_n self;
          ms0 = [(''0'', Linear d_h_in H), (''1'', ReLU)]
      in bind_err (hidden_loop n_hidden_layers H dropout_prob [0..<n_hidden_layers] ms0) (\<lambda>ms1.
         (let ms2 = add_module ms1 ''output'' (Linear H d_h_out);
              model = \<lparr>modules = ms2, training = True, param_dtype = Float32, forward = fwd\<rparr>
          in Inr (self\<lparr>self_diffeomorphism_model := Some (model\<lparr>param_dtype := Float64\<rparr>)\<rparr>))))"

subsection \<open>construct\_basis, the composed basis and lift\<close>

definition construct_basis ::
  "eig_fn \<Rightarrow> koopman \<Rightarrow> real list option \<Rightarrow> real list option \<Rightarrow> error + koopman" where
  "construct_basis eig self ub lb =
     bind_err (construct_linear_eigfuncs eig self) (\<lambda>(f, self1).
     (let self2 = self1\<lparr>self_eigfunc_lin := Some f\<rparr>
      in bind_err (construct_scaling_function self2 ub lb) (\<lambda>g.
         Inr (self2\<lparr>self_scale_func := Some g, self_basis := True\<rparr>))))"

definition basis :: "koopman \<Rightarrow> real ndarray \<Rightarrow> real ndarray \<Rightarrow> error + (real list \<times> koopman)" where
  \<comment> \<open>the body of the lambda of line 51: the attribute \<open>eigfunc_lin\<close> is read first, then
      \<open>scale_func\<close>, then \<open>diffeomorphism\<close> is called, then the two functions\<close>
  "basis self q t =
     (case self_eigfunc_lin self of
        None \<Rightarrow> Inl AttributeError
      | Some f \<Rightarrow>
          bind_err (diffeomorphism self q t) (\<lambda>(d, self').
          (case self_scale_func self of
             None \<Rightarrow> Inl TypeError
           | Some g \<Rightarrow>
               bind_err (g d) (\<lambda>s.
               bind_err (f s) (\<lambda>z.
               Inr (z, self'))))))"

definition lift_item :: "koopman \<Rightarrow> real ndarray \<Rightarrow> real ndarray \<Rightarrow> nat \<Rightarrow> error + (real list \<times> koopman)" where
  \<comment> \<open>one element of the comprehension of line 382: the two arguments are evaluated, then
      \<open>self.basis\<close> is called, which raises when it is still \<open>None\<close>\<close>
  "lift_item self q q_d ii =
     bind_err (column q ii) (\<lambda>c.
     bind_err (reshape_n1 c (self_n self)) (\<lambda>qi.
     bind_err (column q_d ii) (\<lambda>cd.
     bind_err (reshape_n1 cd (self_n self)) (\<lambda>qdi.
     if self_basis self then basis self qi qdi else Inl TypeError))))"

fun lift_loop ::
  "koopman \<Rightarrow> real ndarray \<Rightarrow> real ndarray \<Rightarrow> nat list \<Rightarrow> error + (real list list \<times> koopman)" where
  "lift_loop self q q_d [] = Inr ([], self)"
| "lift_loop self q q_d (ii # iis) =
     bind_err (lift_item self q q_d ii) (\<lambda>(z, self').
     bind_err (lift_loop self' q q_d iis) (\<lambda>(zs, self'').
     Inr (z # zs, self'')))"

definition lift :: "koopman \<Rightarrow> real ndarray \<Rightarrow> real ndarray \<Rightarrow> error + (real ndarray \<times> koopman)" where
  "lift self q q_d =
     bind_err (lift_loop self q q_d [0..<ncols q]) (\<lambda>(zs, self').
     Inr (np_array zs, self'))"

subsection \<open>process and the tensors of fit\_diffeomorphism\_model\<close>

text \<open>
  A 3-D array \<open>[Ntraj, Nt, Ns]\<close> is the list of its \<open>Ntraj\<close> slices, each an
  \<open>Nt \<times> Ns\<close> array. \<open>process\<close> takes \<open>differentiate_vec\<close> as its first argument.
  Of \<open>fit_diffeomorphism_model\<close> the model covers lines 144 to 153 and 169 to 172, which
  build the input and target arrays of the training and of the validation set.
\<close>

type_synonym array3 = "real ndarray list"

definition shape3 :: "array3 \<Rightarrow> nat \<times> nat \<times> nat" where
  "shape3 X = (length X, (case X of [] \<Rightarrow> (0, 0) | A # _ \<Rightarrow> (nrows A, ncols A)))"

definition flatten3 :: "array3 \<Rightarrow> real ndarray" where
  \<comment> \<open>\<open>X.reshape((X.shape[0] * X.shape[1], X.shape[2]))\<close>\<close>
  "flatten3 X =
     (case shape3 X of (a, b, c) \<Rightarrow> \<lparr>nrows = a * b, ncols = c, entries = concat (map entries X)\<rparr>)"

fun mapM_err :: "('a \<Rightarrow> error + 'b) \<Rightarrow> 'a list \<Rightarrow> error + 'b list" where
  "mapM_err f [] = Inr []"
| "mapM_err f (x # xs) = bind_err (f x) (\<lambda>y. bind_err (mapM_err f xs) (\<lambda>ys. Inr (y # ys)))"

definition nth_err :: "'a list \<Rightarrow> nat \<Rightarrow> error + 'a" where
  "nth_err xs i = (if i < length xs then Inr (xs ! i) else Inl IndexError)"

definition last_row :: "real ndarray \<Rightarrow> error + real list" where
  \<comment> \<open>\<open>A[-1, :]\<close>\<close>
  "last_row A =
     (if nrows A = 0 then Inl IndexError
      else Inr (map (\<lambda>j. item A (nrows A - 1) j) [0..<ncols A]))"

definition row_at :: "real ndarray \<Rightarrow> nat \<Rightarrow> error + real list" where
  \<comment> \<open>\<open>A[ii, :]\<close>\<close>
  "row_at A ii = (if ii < nrows A then Inr (map (\<lambda>j. item A ii j) [0..<ncols A]) else Inl IndexError)"

definition sub_row :: "real ndarray \<Rightarrow> real list \<Rightarrow> error + real ndarray" where
  \<comment> \<open>\<open>A - v\<close> for a 2-D \<open>A\<close> and a 1-D \<open>v\<close>, which broadcasts as one row\<close>
  "sub_row A v = broadcast2 (\<lambda>x y. x - y) A (mk_nd 1 (length v) (\<lambda>i j. v ! j))"

definition process ::
  "(real ndarray \<Rightarrow> real list \<Rightarrow> real ndarray) \<Rightarrow> array3 \<Rightarrow> real ndarray \<Rightarrow> array3
   \<Rightarrow> error + (real ndarray \<times> real ndarray \<times> real ndarray \<times> real list)" where
  "process differentiate_vec X t X_d =
     bind_err (mapM_err last_row X_d) (\<lambda>X_f.
     bind_err (mapM_err (\<lambda>ii. bind_err (nth_err X_f ii) (sub_row (X ! ii))) [0..<length X]) (\<lambda>X_shift.
     bind_err (mapM_err (\<lambda>ii. bind_err (nth_err X_d ii) (\<lambda>d.
                              bind_err (nth_err X_f ii) (sub_row d))) [0..<length X]) (\<lambda>X_d'.
     bind_err (mapM_err (\<lambda>ii. bind_err (row_at t ii) (\<lambda>ti.
                              Inr (differentiate_vec (X_shift ! ii) ti))) [0..<length X_shift]) (\<lambda>X_dot.
     if shape3 X_shift \<noteq> shape3 X_dot then Inl AssertionError
     else if shape3 X_d' \<noteq> shape3 X_dot then Inl AssertionError
     else if (nrows t, ncols t) \<noteq> (fst (shape3 X_shift), fst (snd (shape3 X_shift)))
     then Inl AssertionError
     else Inr (flatten3 X_shift, flatten3 X_dot, flatten3 X_d', concat (entries t))))))"

definition concatenate3_axis1 ::
  "real ndarray \<Rightarrow> real ndarray \<Rightarrow> real ndarray \<Rightarrow> error + real ndarray" where
  "concatenate3_axis1 A B C = bind_err (concatenate_axis1 A B) (\<lambda>AB. concatenate_axis1 AB C)"

definition fit_target :: "real ndarray \<Rightarrow> real ndarray \<Rightarrow> real ndarray \<Rightarrow> error + real ndarray" where
  \<comment> \<open>\<open>X_dot - dot(A_cl, X.transpose()).transpose()\<close>, lines 145 and 170\<close>
  "fit_target A_cl X X_dot =
     bind_err (np_dot A_cl (np_transpose X)) (\<lambda>AX.
     broadcast2 (\<lambda>x y. x - y) X_dot (np_transpose AX))"

definition fit_train_data ::
  "(real ndarray \<Rightarrow> real list \<Rightarrow> real ndarray) \<Rightarrow> koopman \<Rightarrow> array3 \<Rightarrow> real ndarray \<Rightarrow> array3
   \<Rightarrow> error + (real ndarray \<times> real ndarray)" where
  \<comment> \<open>lines 144 to 152: \<open>(X_tensor, y_tensor)\<close>\<close>
  "fit_train_data differentiate_vec self X0 t0 X_d0 =
     bind_err (process differentiate_vec X0 t0 X_d0) (\<lambda>(X, X_dot, X_d, t).
     bind_err (fit_target (self_A_cl self) X X_dot) (\<lambda>y_target.
     bind_err (concatenate3_axis1 X X_d X_dot) (\<lambda>X_tensor.
     Inr (X_tensor, y_target))))"

definition fit_val_data ::
  "(real ndarray \<Rightarrow> real list \<Rightarrow> real ndarray) \<Rightarrow> koopman \<Rightarrow> array3 \<Rightarrow> real ndarray \<Rightarrow> array3
   \<Rightarrow> error + (real ndarray \<times> real ndarray)" where
  \<comment> \<open>lines 169 to 172: \<open>(X_val_tensor, y_val_tensor)\<close>\<close>
  "fit_val_data differentiate_vec self X_val0 t_val0 Xd_val0 =
     bind_err (process differentiate_vec X_val0 t_val0 Xd_val0) (\<lambda>(X_val, X_dot_val, Xd_val, t_val).
     bind_err (fit_target (self_A_cl self) X_val X_dot_val) (\<lambda>y_target_val.
     bind_err (concatenate3_axis1 X_val X_dot_val X_dot_val) (\<lambda>X_val_tensor.
     Inr (X_val_tensor, y_target_val))))"

subsection \<open>Notions used in the statements\<close>

text \<open>
  \<open>returned\<close> is the value a method returns, without the object it leaves behind.
  \<open>eval_model\<close> is the object after \<open>self.diffeomorphism_model.eval()\<close>, \<open>with_forward\<close>
  the object with another function computed by its network, and \<open>on_state\<close> applies a
  change of the object to a result. \<open>column_nd q ii\<close> is \<open>q[:,ii].reshape((n,1))\<close> for an
  array of \<open>n\<close> rows.
\<close>

definition returned :: "error + ('a \<times> 'b) \<Rightarrow> error + 'a" where
  "returned r = (case r of Inl e \<Rightarrow> Inl e | Inr (v, s) \<Rightarrow> Inr v)"

definition on_state :: "('s \<Rightarrow> 's) \<Rightarrow> error + ('a \<times> 's) \<Rightarrow> error + ('a \<times> 's)" where
  "on_state g r = (case r of Inl e \<Rightarrow> Inl e | Inr (v, s) \<Rightarrow> Inr (v, g s))"

definition eval_model :: "koopman \<Rightarrow> koopman" where
  "eval_model self = self\<lparr>self_diffeomorphism_model := map_option net_eval (self_diffeomorphism_model self)\<rparr>"

definition with_forward :: "(bool \<Rightarrow> real ndarray \<Rightarrow> real ndarray) \<Rightarrow> koopman \<Rightarrow> koopman" where
  "with_forward f s =
     s\<lparr>self_diffeomorphism_model := map_option (\<lambda>m. m\<lparr>forward := f\<rparr>) (self_diffeomorphism_model s)\<rparr>"

definition column_nd :: "'a ndarray \<Rightarrow> nat \<Rightarrow> 'a ndarray" where
  "column_nd q ii = mk_nd (nrows q) 1 (\<lambda>i j. item q i ii)"

subsection \<open>The network in closed form\<close>

text \<open>
  \<open>layout\<close> lists the modules \<open>build_diffeomorphism_model\<close> is shown to register:
  the two modules of the constructor call, one \<open>hidden_block\<close> per round of the loop, and
  the output layer. \<open>hidden_blocks H\<close> counts the linear layers of output width \<open>H\<close> that
  a ReLU follows directly.
\<close>

definition hidden_block :: "nat \<Rightarrow> nat \<Rightarrow> real \<Rightarrow> nat \<Rightarrow> (string \<times> module) list" where
  "hidden_block n_hidden_layers H dropout_prob ii =
     [(''dense_'' @ str (ii + 1), Linear H H), (''relu_'' @ str (ii + 1), ReLU)] @
     (if ii + 1 < n_hidden_layers then [(''dropout_'' @ str (ii + 1), Dropout dropout_prob)] else [])"

definition layout :: "nat \<Rightarrow> nat \<Rightarrow> nat \<Rightarrow> real \<Rightarrow> (string \<times> module) list" where
  "layout n n_hidden_layers H dropout_prob =
     [(''0'', Linear (2 * n) H), (''1'', ReLU)] @
     concat (map (hidden_block n_hidden_layers H dropout_prob) [0..<n_hidden_layers]) @
     [(''output'', Linear H n)]"

definition block_names :: "nat \<Rightarrow> string set" where
  "block_names ii = {''dense_'' @ str (ii + 1), ''relu_'' @ str (ii + 1), ''dropout_'' @ str (ii + 1)}"



subsection \<open>Concrete inputs\<close>

text \<open>
  The scenario of the specification: \<open>n = 2\<close>, \<open>max_power = 1\<close>, \<open>A_cl = diag(-1, -2)\<close>,
  \<open>BK = zeros((2,1))\<close>, \<open>ub = [1,1]\<close>, \<open>lb = [-1,-1]\<close>. On a diagonal matrix
  \<open>numpy.linalg.eig\<close> returns the diagonal as eigenvalues and the unit vectors as
  eigenvectors, which is what \<open>eig_diagonal\<close> returns. \<open>based\<close> is the object after
  \<open>construct_basis\<close>, \<open>scenario\<close> the object after \<open>build_diffeomorphism_model\<close> as well,
  with a network that computes zero. \<open>origin\<close> is the sample \<open>[[0],[0]]\<close> and \<open>no_samples\<close>
  an array of shape \<open>(2,0)\<close>.
\<close>

definition eig_diagonal :: eig_fn where
  "eig_diagonal A =
     Inr (map (\<lambda>i. complex_of_real (item A i i)) [0..<nrows A],
          mk_nd (nrows A) (nrows A) (\<lambda>i j. if i = j then 1 else 0))"

definition A_diag :: "real ndarray" where
  "A_diag = np_array [[-1, 0], [0, -2]]"

definition BK_zeros :: "real ndarray" where
  "BK_zeros = np_array [[0], [0]]"

definition fresh :: koopman where
  "fresh = init 2 1 A_diag BK_zeros []"

definition zero_net :: "bool \<Rightarrow> real ndarray \<Rightarrow> real ndarray" where
  "zero_net train x = mk_nd (nrows x) 2 (\<lambda>i j. 0)"

definition based :: "error + koopman" where
  "based = construct_basis eig_diagonal fresh (Some [1, 1]) (Some [-1, -1])"

definition scenario :: "error + koopman" where
  "scenario = bind_err based (\<lambda>s. build_diffeomorphism_model zero_net s 2 50 64 (1 / 10))"

definition scenario_net :: network where
  "scenario_net = \<lparr>modules = layout 2 2 50 (1 / 10), training = True,
                    param_dtype = Float64, forward = zero_net\<rparr>"

definition origin :: "real ndarray" where
  "origin = np_array [[0], [0]]"

definition no_samples :: "real ndarray" where
  "no_samples = mk_nd 2 0 (\<lambda>i j. 0)"

text \<open>
  A system with complex eigenvalues: the rotation generator \<open>[[0,-1],[1,0]]\<close>, whose
  eigenvalues are \<open>i\<close> and \<open>-i\<close>. \<open>eig_rotation\<close> returns them with the unit eigenvectors
  of this matrix and of its transpose.
\<close>

definition A_rot :: "real ndarray" where
  "A_rot = np_array [[0, -1], [1, 0]]"

definition eig_rotation :: eig_fn where
  "eig_rotation A =
     Inr ([\<i>, - \<i>],
          np_array [[complex_of_real (1 / sqrt 2), complex_of_real (1 / sqrt 2)],
                    [- \<i> * complex_of_real (item A 1 0 / sqrt 2),
                     \<i> * complex_of_real (item A 1 0 / sqrt 2)]])"

definition rot_system :: koopman where
  "rot_system = init 2 1 A_rot BK_zeros []"

text \<open>
  A data set of one trajectory with two samples of a one-dimensional state, for
  \<open>A_cl = [[-1]]\<close>: states \<open>1, 2\<close> at times \<open>0, 1\<close>, desired states \<open>5, 7\<close>, and a
  \<open>differentiate_vec\<close> that returns the derivative \<open>1\<close> at both samples.
\<close>

definition X_ex :: array3 where
  "X_ex = [np_array [[1], [2]]]"

definition t_ex :: "real ndarray" where
  "t_ex = np_array [[0, 1]]"

definition Xd_ex :: array3 where
  "Xd_ex = [np_array [[5], [7]]]"

definition diff_ex :: "real ndarray \<Rightarrow> real list \<Rightarrow> real ndarray" where
  "diff_ex X t = np_array [[1], [1]]"

definition decay_system :: koopman where
  "decay_system = init 1 1 (np_array [[-1]]) (np_array [[0]]) []"

section \<open>Properties\<close>

subsection \<open>Arrays\<close>

lemma nrows_mk_nd [simp]: "nrows (mk_nd r c f) = r"
  and ncols_mk_nd [simp]: "ncols (mk_nd r c f) = c"
  by (simp_all add: mk_nd_def)

lemma wf_mk_nd [simp]: "wf_nd (mk_nd r c f)"
  by (auto simp: wf_nd_def mk_nd_def)

lemma item_mk_nd [simp]: "i < r \<Longrightarrow> j < c \<Longrightarrow> item (mk_nd r c f) i j = f i j"
  by (simp add: item_def mk_nd_def)

lemma nd_eqI:
  assumes "wf_nd A" "wf_nd B" "nrows A = nrows B" "ncols A = ncols B"
    and "\<And>i j. i < nrows A \<Longrightarrow> j < ncols A \<Longrightarrow> item A i j = item B i j"
  shows "A = (B :: 'a ndarray)"
proof -
  have "entries A = entries B"
  proof (rule nth_equalityI)
    show "length (entries A) = length (entries B)"
      using assms by (simp add: wf_nd_def)
  next
    fix i assume i: "i < length (entries A)"
    then have iA: "i < nrows A" and iB: "i < length (entries B)"
      using assms by (simp_all add: wf_nd_def)
    have lA: "length (entries A ! i) = ncols A"
      using assms(1) i by (simp add: wf_nd_def)
    have lB: "length (entries B ! i) = ncols A"
      using assms(2,4) iB by (simp add: wf_nd_def)
    show "entries A ! i = entries B ! i"
    proof (rule nth_equalityI)
      show "length (entries A ! i) = length (entries B ! i)" using lA lB by simp
    next
      fix j assume "j < length (entries A ! i)"
      then have "j < ncols A" using lA by simp
      then show "entries A ! i ! j = entries B ! i ! j"
        using assms(5) [OF iA] by (simp add: item_def)
    qed
  qed
  then show ?thesis using assms(3,4) by simp
qed

lemma transpose_transpose: "wf_nd A \<Longrightarrow> np_transpose (np_transpose A) = A"
  by (rule nd_eqI) (simp_all add: np_transpose_def)

subsection \<open>The power matrix\<close>

lemma picks_mset: "(y, ys) \<in> set (picks xs) \<Longrightarrow> mset xs = add_mset y (mset ys)"
  by (induction xs arbitrary: y ys) auto

lemma picks_mem: "y \<in> set xs \<Longrightarrow> \<exists>ys. (y, ys) \<in> set (picks xs)"
  by (induction xs) force+

lemma set_permutations:
  "length xs = r \<Longrightarrow> set (permutations xs r) = {ys. mset ys = mset xs}"
proof (induction r arbitrary: xs)
  case 0
  then show ?case by auto
next
  case (Suc r)
  show ?case
  proof (intro set_eqI iffI)
    fix zs assume "zs \<in> set (permutations xs (Suc r))"
    then obtain y ys zs' where p: "(y, ys) \<in> set (picks xs)"
      and z: "zs = y # zs'" "zs' \<in> set (permutations ys r)"
      by auto
    from picks_mset [OF p] have m: "mset xs = add_mset y (mset ys)" .
    then have "size (mset xs) = Suc (size (mset ys))" by simp
    then have "length ys = r" using Suc.prems by simp
    from Suc.IH [OF this] z(2) have "mset zs' = mset ys" by simp
    then show "zs \<in> {ys. mset ys = mset xs}" using m z(1) by simp
  next
    fix zs assume "zs \<in> {ys. mset ys = mset xs}"
    then have m: "mset zs = mset xs" by simp
    then have "length zs = Suc r" using Suc.prems by (metis size_mset)
    then obtain y zs' where z: "zs = y # zs'" by (cases zs) auto
    then have "y \<in> set xs" using m by (metis list.set_intros(1) mset_eq_setD)
    then obtain ys where p: "(y, ys) \<in> set (picks xs)" using picks_mem by metis
    from picks_mset [OF p] m z have m': "mset zs' = mset ys" by simp
    then have "length ys = r" using \<open>length zs = Suc r\<close> z by (metis length_Cons nat.inject size_mset)
    from Suc.IH [OF this] m' have "zs' \<in> set (permutations ys r)" by simp
    then show "zs \<in> set (permutations xs (Suc r))" using p z by force
  qed
qed

lemma cwr_sub:
  "ys \<in> set (combinations_with_replacement xs r) \<Longrightarrow> length ys = r \<and> set ys \<subseteq> set xs"
  by (induction xs r arbitrary: ys rule: combinations_with_replacement.induct) fastforce+

lemma cwr_sorted_mem:
  "sorted xs \<Longrightarrow> distinct xs \<Longrightarrow> sorted ys \<Longrightarrow> set ys \<subseteq> set xs \<Longrightarrow> length ys = r
   \<Longrightarrow> ys \<in> set (combinations_with_replacement xs r)"
proof (induction xs r arbitrary: ys rule: combinations_with_replacement.induct)
  case (1 xs)
  then show ?case by simp
next
  case (2 r)
  then show ?case by simp
next
  case (3 x xs r)
  from "3.prems"(5) obtain y ys' where ys: "ys = y # ys'" "length ys' = r"
    by (cases ys) auto
  show ?case
  proof (cases "y = x")
    case True
    have "ys' \<in> set (combinations_with_replacement (x # xs) r)"
      using "3.IH"(1) [of ys'] "3.prems" ys by simp
    then show ?thesis using True ys by simp
  next
    case False
    then have "y \<in> set xs" using "3.prems"(4) ys by auto
    then have "x < y" using "3.prems"(1,2) by (metis distinct.simps(2) order_less_le sorted_simps(2))
    then have "set ys \<subseteq> set xs"
      using "3.prems"(3,4) ys by (fastforce simp: subset_iff)
    then have "ys \<in> set (combinations_with_replacement xs (Suc r))"
      using "3.IH"(2) [of ys] "3.prems" ys by simp
    then show ?thesis by simp
  qed
qed

lemma set_power_rows:
  "set (power_rows n m) = {zs. length zs = n \<and> set zs \<subseteq> {0..m}}"
proof (intro set_eqI iffI)
  fix zs assume "zs \<in> set (power_rows n m)"
  then obtain c where c: "c \<in> set (combinations_with_replacement [0..<m + 1] n)"
    and z: "zs \<in> set (permutations c n)"
    by (auto simp: power_rows_def unique_rows_def)
  from cwr_sub [OF c] have lc: "length c = n" and sc: "set c \<subseteq> {0..m}" by auto
  from z set_permutations [OF lc] have "mset zs = mset c" by simp
  then have "length zs = length c" "set zs = set c"
    by (metis size_mset, metis set_mset_mset)
  then show "zs \<in> {zs. length zs = n \<and> set zs \<subseteq> {0..m}}" using lc sc by simp
next
  fix zs assume "zs \<in> {zs. length zs = n \<and> set zs \<subseteq> {0..m}}"
  then have l: "length zs = n" and s: "set zs \<subseteq> {0..m}" by auto
  let ?c = "sort zs"
  have "set ?c \<subseteq> set [0..<m + 1]"
    using s by auto
  then have "?c \<in> set (combinations_with_replacement [0..<m + 1] n)"
    using l by (intro cwr_sorted_mem sorted_upt distinct_upt sorted_sort) simp_all
  moreover have "zs \<in> set (permutations ?c n)"
    using set_permutations [of ?c n] l by simp
  ultimately show "zs \<in> set (power_rows n m)"
    by (auto simp: power_rows_def unique_rows_def)
qed

lemma distinct_remdups_adj_sorted:
  "sorted xs \<Longrightarrow> distinct (remdups_adj (xs :: 'a :: linorder list))"
  by (induction xs rule: remdups_adj.induct) auto

lemma distinct_power_rows: "distinct (power_rows n m)"
  by (simp add: power_rows_def unique_rows_def distinct_remdups_adj_sorted)

lemma sorted_power_rows: "sorted (power_rows n m)"
  by (simp add: power_rows_def unique_rows_def)

lemma length_power_rows: "length (power_rows n m) = (m + 1) ^ n"
proof -
  have "length (power_rows n m) = card (set (power_rows n m))"
    by (simp add: distinct_card distinct_power_rows)
  also have "\<dots> = card {zs. set zs \<subseteq> {0..m} \<and> length zs = n}"
    by (simp add: set_power_rows conj_commute)
  also have "\<dots> = card {0..m} ^ n"
    by (rule card_lists_length_eq) simp
  finally show ?thesis by simp
qed



subsection \<open>construct\_linear\_eigfuncs\<close>

lemma Warning_expr_simp [simp]: "Warning_expr msg warns = warns"
  by (simp add: Warning_expr_def)

lemma bind_err_Inr_iff:
  "bind_err r f = Inr y \<longleftrightarrow> (\<exists>x. r = Inr x \<and> f x = Inr y)"
  by (cases r) (simp_all add: bind_err_def)

lemma bind_err_simps [simp]:
  "bind_err (Inl e) f = Inl e" "bind_err (Inr x) f = f x"
  by (simp_all add: bind_err_def)

lemma length_np_prod_axis0 [simp]: "length (np_prod_axis0 A) = ncols A"
  by (simp add: np_prod_axis0_def)

lemma broadcast2_Inr:
  "broadcast2 f A B = Inr C \<Longrightarrow>
     nrows C = bc_dim (nrows A) (nrows B) \<and> ncols C = bc_dim (ncols A) (ncols B)"
  by (auto simp: broadcast2_def split: if_splits)

lemma eigfunc_lin_length:
  assumes "eigfunc_lin w P q = Inr z" and "ncols q = 1"
  shows "length z = nrows P"
proof -
  from assms(1) obtain lq Q where lq: "np_dot (np_transpose w) q = Inr lq"
    and Q: "np_power lq (np_transpose P) = Inr Q" and z: "z = np_prod_axis0 Q"
    by (auto simp: eigfunc_lin_def linfunc_def bind_err_Inr_iff)
  from lq assms(2) have "ncols lq = 1"
    by (auto simp: np_dot_def split: if_splits)
  with broadcast2_Inr [OF Q [unfolded np_power_def]] have "ncols Q = nrows P"
    by (simp add: bc_dim_def np_transpose_def)
  then show ?thesis using z by simp
qed

lemma construct_linear_eigfuncs_Inr:
  assumes "construct_linear_eigfuncs eig self = Inr (f, self')"
  shows "\<exists>evals v evals2 evecs one_lift Lam.
           eig (self_A_cl self) = Inr (evals, v) \<and>
           eig (np_transpose (self_A_cl self)) = Inr (evals2, evecs) \<and>
           f = eigfunc_lin (map_nd Re evecs) (np_array (power_rows (self_n self) (self_max_power self))) \<and>
           f (np_ones (self_n self) 1) = Inr one_lift \<and>
           calc_Lambda (map Re evals) (self_n self)
             (np_array (power_rows (self_n self) (self_max_power self))) = Inr Lam \<and>
           self' = self\<lparr>self_Nlift := Some (length one_lift), self_Lambda := Some Lam,
                        emitted := emitted self\<rparr>"
  using assms
  by (auto simp: construct_linear_eigfuncs_def bind_err_Inr_iff suppress_complex_def Let_def
           split: prod.splits if_splits)

lemma nrows_np_array [simp]: "nrows (np_array rows) = length rows"
  by (simp add: np_array_def)

text \<open>
  Claim C2. For \<open>n \<ge> 1\<close> and any \<open>max_power\<close>, when \<open>construct_linear_eigfuncs\<close> returns, the
  rows of \<open>powers\<close> are exactly the sequences of length \<open>n\<close> over \<open>{0..max_power}\<close>, each
  once (and in lexicographic order), the returned function is built on these rows, and
  \<open>Nlift\<close> is their number, \<open>(max_power + 1) ^ n\<close>.
\<close>

theorem construct_linear_eigfuncs_powers:
  assumes "1 \<le> self_n self"
    and "construct_linear_eigfuncs eig self = Inr (f, self')"
  shows "set (power_rows (self_n self) (self_max_power self)) =
           {zs. length zs = self_n self \<and> set zs \<subseteq> {0..self_max_power self}} \<and>
         distinct (power_rows (self_n self) (self_max_power self)) \<and>
         sorted (power_rows (self_n self) (self_max_power self)) \<and>
         (\<exists>w. f = eigfunc_lin w (np_array (power_rows (self_n self) (self_max_power self)))) \<and>
         self_Nlift self' = Some (length (power_rows (self_n self) (self_max_power self))) \<and>
         length (power_rows (self_n self) (self_max_power self)) = (self_max_power self + 1) ^ self_n self"
proof -
  from construct_linear_eigfuncs_Inr [OF assms(2)] obtain w one_lift Lam where
    f: "f = eigfunc_lin w (np_array (power_rows (self_n self) (self_max_power self)))"
    and o: "f (np_ones (self_n self) 1) = Inr one_lift"
    and s: "self' = self\<lparr>self_Nlift := Some (length one_lift), self_Lambda := Some Lam,
                        emitted := emitted self\<rparr>"
    by blast
  have "length one_lift = length (power_rows (self_n self) (self_max_power self))"
    using eigfunc_lin_length [OF o [unfolded f]] by (simp add: np_ones_def)
  then show ?thesis
    using f s by (auto simp: set_power_rows distinct_power_rows sorted_power_rows length_power_rows)
qed

lemma power_rows_2_1: "power_rows 2 1 = [[0, 0], [0, 1], [1, 0], [1, 1]]"
  by code_simp


lemma power_rows_row_length: "r \<in> set (power_rows n m) \<Longrightarrow> length r = n"
  by (simp add: set_power_rows)

lemma power_rows_nonempty: "power_rows n m \<noteq> []"
proof -
  have "0 < length (power_rows n m)" by (simp add: length_power_rows)
  then show ?thesis by simp
qed

lemma ncols_powers [simp]: "ncols (np_array (power_rows n m)) = n"
proof (cases "power_rows n m")
  case Nil
  then show ?thesis using power_rows_nonempty by blast
next
  case (Cons r rs)
  then have "r \<in> set (power_rows n m)" by simp
  then have "length r = n" by (rule power_rows_row_length)
  then show ?thesis using Cons by (simp add: np_array_def)
qed

lemma item_powers:
  "i < length (power_rows n m) \<Longrightarrow> item (np_array (power_rows n m)) i j = power_rows n m ! i ! j"
  by (simp add: item_def np_array_def)

lemma bc_simps [simp]:
  "bc_compat a a" "bc_compat 1 b" "bc_compat a 1" "bc_dim a a = a" "bc_dim 1 b = b"
  "bc_dim a 1 = a" "bc_compat (Suc 0) b" "bc_compat a (Suc 0)" "bc_dim (Suc 0) b = b"
  "bc_dim a (Suc 0) = a"
  by (auto simp: bc_compat_def bc_dim_def)

lemma nrows_map_nd [simp]: "nrows (map_nd g A) = nrows A"
  and ncols_map_nd [simp]: "ncols (map_nd g A) = ncols A"
  by (simp_all add: map_nd_def)

lemma eigfunc_lin_ok:
  assumes "nrows w = n" "ncols w = n" "nrows q = n" "ncols q = 1"
  shows "\<exists>z. eigfunc_lin w (np_array (power_rows n m)) q = Inr z"
  using assms
  by (simp add: eigfunc_lin_def linfunc_def np_dot_def np_transpose_def np_power_def broadcast2_def)

lemma calc_Lambda_ok:
  assumes "length lambd = n"
  shows "calc_Lambda lambd n (np_array (power_rows n m)) =
           Inr (map (\<lambda>i. ln (prod_list (map (\<lambda>j. exp (lambd ! j) ^ (power_rows n m ! i ! j)) [0..<n])))
                  [0..<length (power_rows n m)])"
proof -
  let ?P = "np_array (power_rows n m)"
  let ?E = "mk_nd n 1 (\<lambda>i j. map exp lambd ! i) :: real ndarray"
  have "np_prod_axis0 (mk_nd n (length (power_rows n m))
           (\<lambda>i j. bc_at ?E i j ^ bc_at (np_transpose ?P) i j)) =
        map (\<lambda>i. prod_list (map (\<lambda>j. exp (lambd ! j) ^ (power_rows n m ! i ! j)) [0..<n]))
          [0..<length (power_rows n m)]"
    unfolding np_prod_axis0_def
    using assms
    by (auto simp: bc_at_def np_transpose_def item_powers intro!: arg_cong [where f = prod_list])
  then show ?thesis
    using assms
    by (simp add: calc_Lambda_def reshape_n1_def np_power_def broadcast2_def np_transpose_def
        comp_def)
qed

lemma construct_linear_eigfuncs_ok:
  assumes "eig (self_A_cl self) = Inr (evals, v)"
    and "eig (np_transpose (self_A_cl self)) = Inr (evals2, evecs)"
    and "length evals = self_n self" "nrows evecs = self_n self" "ncols evecs = self_n self"
  shows "\<exists>f self'. construct_linear_eigfuncs eig self = Inr (f, self')"
proof -
  obtain z where "eigfunc_lin (map_nd Re evecs) (np_array (power_rows (self_n self) (self_max_power self)))
      (np_ones (self_n self) 1) = Inr z"
    using eigfunc_lin_ok [of "map_nd Re evecs" "self_n self" "np_ones (self_n self) 1"] assms
    by (auto simp: np_ones_def)
  then show ?thesis
    using assms
    by (simp add: construct_linear_eigfuncs_def suppress_complex_def Let_def calc_Lambda_ok)
qed



lemma fresh_simps [simp]:
  "self_n fresh = 2" "self_max_power fresh = 1" "self_A_cl fresh = A_diag"
  "self_diffeomorphism_model fresh = None" "emitted fresh = []" "self_basis fresh = False"
  by (simp_all add: fresh_def init_def)

lemma upt_0_2: "[0..<2] = [0, Suc 0]"
  by (simp add: numeral_2_eq_2)

lemma A_diag_simps [simp]: "nrows A_diag = 2" "ncols A_diag = 2"
  by (simp_all add: A_diag_def np_array_def)

lemma eig_diagonal_A_diag:
  "eig_diagonal A_diag = Inr ([-1, -2], mk_nd 2 2 (\<lambda>i j. if i = j then 1 else 0))"
  by (simp add: eig_diagonal_def upt_0_2) (simp add: A_diag_def np_array_def item_def)

lemma eig_diagonal_A_diag_T:
  "eig_diagonal (np_transpose A_diag) = Inr ([-1, -2], mk_nd 2 2 (\<lambda>i j. if i = j then 1 else 0))"
  by (simp add: eig_diagonal_def np_transpose_def upt_0_2) (simp add: A_diag_def np_array_def item_def)

lemma fresh_eigfuncs_ok: "\<exists>f s. construct_linear_eigfuncs eig_diagonal fresh = Inr (f, s)"
proof (rule construct_linear_eigfuncs_ok)
  show "eig_diagonal (self_A_cl fresh) = Inr ([-1, -2], mk_nd 2 2 (\<lambda>i j. if i = j then 1 else 0))"
    by (simp add: eig_diagonal_A_diag)
  show "eig_diagonal (np_transpose (self_A_cl fresh)) =
          Inr ([-1, -2], mk_nd 2 2 (\<lambda>i j. if i = j then 1 else 0))"
    by (simp add: eig_diagonal_A_diag_T)
qed simp_all

lemma power_rows_2_1': "power_rows 2 (Suc 0) = [[0, 0], [0, Suc 0], [Suc 0, 0], [Suc 0, Suc 0]]"
  using power_rows_2_1 by simp

theorem construct_linear_eigfuncs_powers_witness:
  "1 \<le> self_n fresh \<and>
   \<not> isl (construct_linear_eigfuncs eig_diagonal fresh) \<and>
   power_rows 2 1 = [[0, 0], [0, 1], [1, 0], [1, 1]] \<and>
   set (power_rows 2 1) = {zs. length zs = 2 \<and> set zs \<subseteq> {0..1}} \<and>
   self_Nlift (snd (projr (construct_linear_eigfuncs eig_diagonal fresh))) = Some 4"
proof -
  obtain f s where ok: "construct_linear_eigfuncs eig_diagonal fresh = Inr (f, s)"
    using fresh_eigfuncs_ok by blast
  have n: "1 \<le> self_n fresh" by simp
  from construct_linear_eigfuncs_powers [OF n ok]
  have "set (power_rows 2 1) = {zs. length zs = 2 \<and> set zs \<subseteq> {0..1}}"
    and "self_Nlift s = Some (length (power_rows 2 1))"
    by simp_all
  then show ?thesis using ok n by (simp add: power_rows_2_1')
qed


subsection \<open>diffeomorphism, basis and lift\<close>

lemma returned_simps [simp]: "returned (Inl e) = Inl e" "returned (Inr (v, s)) = Inr v"
  by (simp_all add: returned_def)

lemma accepts_net_eval [simp]: "accepts (net_eval m) k = accepts m k"
  by (simp add: accepts_def net_eval_def)

lemma net_eval_idem [simp]: "net_eval (net_eval m) = net_eval m"
  by (simp add: net_eval_def)

lemma net_call_Inr_iff: "(\<exists>y. net_call m x = Inr y) \<longleftrightarrow> accepts m (ncols x)"
  by (simp add: net_call_def)

lemma diffeomorphism_eq:
  "diffeomorphism self q q_d =
     (case self_diffeomorphism_model self of
        None \<Rightarrow> Inl AttributeError
      | Some m \<Rightarrow>
          if ncols q \<noteq> ncols q_d then Inl ValueError
          else if \<not> accepts m (nrows q + nrows q_d) then Inl RuntimeError
          else Inr (np_transpose (np_transpose q), eval_model self))"
  by (auto simp: diffeomorphism_def Let_def concatenate_axis1_def np_transpose_def net_call_def
      eval_model_def split: option.splits)

text \<open>
  Claim C6. With a model that has been built (one that accepts batches of width \<open>2n\<close>),
  for every state array \<open>q\<close> and desired-state array \<open>q_d\<close> with \<open>n\<close> rows and equally many
  columns, \<open>diffeomorphism\<close> returns \<open>q\<close> itself: the prediction of the network is computed
  and not added. The only change to the object is that the model is in evaluation mode.
\<close>

theorem diffeomorphism_returns_q:
  assumes "self_diffeomorphism_model self = Some m"
    and "accepts m (2 * self_n self)"
    and "wf_nd q" and "nrows q = self_n self" and "nrows q_d = self_n self"
    and "ncols q_d = ncols q"
  shows "diffeomorphism self q q_d =
           Inr (q, self\<lparr>self_diffeomorphism_model := Some (net_eval m)\<rparr>)"
  using assms by (simp add: diffeomorphism_eq transpose_transpose eval_model_def mult_2)

lemma eval_model_simps [simp]:
  "self_n (eval_model s) = self_n s" "self_basis (eval_model s) = self_basis s"
  "self_eigfunc_lin (eval_model s) = self_eigfunc_lin s"
  "self_scale_func (eval_model s) = self_scale_func s"
  "self_diffeomorphism_model (eval_model s) = map_option net_eval (self_diffeomorphism_model s)"
  "self_Nlift (eval_model s) = self_Nlift s"
  by (simp_all add: eval_model_def)

lemma eval_model_idem [simp]: "eval_model (eval_model s) = eval_model s"
  by (simp add: eval_model_def option.map_comp comp_def)








lemma lift_loop_fails:
  "isl (lift_item s q t ii) \<Longrightarrow> isl (lift_loop s q t (ii # iis))"
  by (cases "lift_item s q t ii") auto

lemma reshape_n1_map: "reshape_n1 (map h [0..<n]) n = Inr (mk_nd n 1 (\<lambda>i j. h i))"
  by (simp add: reshape_n1_def mk_nd_def)

lemma lift_item_eq:
  assumes "ii < ncols q" "ii < ncols t" "nrows q = self_n s" "nrows t = self_n s"
  shows "lift_item s q t ii =
           (if self_basis s then basis s (column_nd q ii) (column_nd t ii) else Inl TypeError)"
  using assms reshape_n1_map [of "\<lambda>i. item q i ii" "self_n s"]
    reshape_n1_map [of "\<lambda>i. item t i ii" "self_n s"]
  by (simp add: lift_item_def column_def column_nd_def)

lemma column_nd_simps [simp]:
  "nrows (column_nd q ii) = nrows q" "ncols (column_nd q ii) = 1" "wf_nd (column_nd q ii)"
  by (simp_all add: column_nd_def)

lemma basis_value:
  assumes "self_eigfunc_lin s = Some f" "self_scale_func s = Some g"
    and "self_diffeomorphism_model s = Some m" "accepts m (nrows x + nrows t)"
    and "ncols x = ncols t" "wf_nd x"
  shows "basis s x t = bind_err (g x) (\<lambda>y. bind_err (f y) (\<lambda>z. Inr (z, eval_model s)))"
  using assms by (simp add: basis_def diffeomorphism_eq transpose_transpose)


lemma construct_scaling_function_Inr:
  assumes "construct_scaling_function s ub lb = Inr g"
  shows "\<exists>u l d. ub = Some u \<and> lb = Some l \<and> np_sub1 u l = Inr d \<and> length d = self_n s \<and>
           g = (\<lambda>q. np_divide q (mk_nd (self_n s) 1 (\<lambda>i j. d ! i)))"
  using assms
  by (auto simp: construct_scaling_function_def bind_err_Inr_iff reshape_n1_def
      split: option.splits if_splits)

lemma construct_basis_Inr:
  assumes "construct_basis eig s0 ub lb = Inr s1"
  shows "\<exists>f s' g. construct_linear_eigfuncs eig s0 = Inr (f, s') \<and>
           construct_scaling_function (s'\<lparr>self_eigfunc_lin := Some f\<rparr>) ub lb = Inr g \<and>
           s1 = s'\<lparr>self_eigfunc_lin := Some f, self_scale_func := Some g, self_basis := True\<rparr>"
  using assms
  by (auto simp: construct_basis_def bind_err_Inr_iff Let_def)

lemma construct_basis_fields:
  assumes "construct_basis eig s0 ub lb = Inr s1"
  shows "\<exists>w d one_lift.
           self_basis s1 \<and> self_n s1 = self_n s0 \<and>
           self_diffeomorphism_model s1 = self_diffeomorphism_model s0 \<and>
           self_eigfunc_lin s1 =
             Some (eigfunc_lin w (np_array (power_rows (self_n s0) (self_max_power s0)))) \<and>
           eigfunc_lin w (np_array (power_rows (self_n s0) (self_max_power s0)))
             (np_ones (self_n s0) 1) = Inr one_lift \<and>
           self_Nlift s1 = Some (length (power_rows (self_n s0) (self_max_power s0))) \<and>
           length d = self_n s0 \<and>
           self_scale_func s1 = Some (\<lambda>q. np_divide q (mk_nd (self_n s0) 1 (\<lambda>i j. d ! i)))"
proof -
  from construct_basis_Inr [OF assms] obtain f s' g where
    a: "construct_linear_eigfuncs eig s0 = Inr (f, s')"
    and b: "construct_scaling_function (s'\<lparr>self_eigfunc_lin := Some f\<rparr>) ub lb = Inr g"
    and c: "s1 = s'\<lparr>self_eigfunc_lin := Some f, self_scale_func := Some g, self_basis := True\<rparr>"
    by blast
  from construct_linear_eigfuncs_Inr [OF a] obtain w one_lift Lam where
    f: "f = eigfunc_lin w (np_array (power_rows (self_n s0) (self_max_power s0)))"
    and o: "f (np_ones (self_n s0) 1) = Inr one_lift"
    and s': "s' = s0\<lparr>self_Nlift := Some (length one_lift), self_Lambda := Some Lam,
                        emitted := emitted s0\<rparr>"
    by blast
  have len: "length one_lift = length (power_rows (self_n s0) (self_max_power s0))"
    using eigfunc_lin_length [OF o [unfolded f]] by (simp add: np_ones_def)
  from construct_scaling_function_Inr [OF b] obtain d where
    d: "length d = self_n s0" "g = (\<lambda>q. np_divide q (mk_nd (self_n s0) 1 (\<lambda>i j. d ! i)))"
    by (auto simp: s')
  show ?thesis
    using c f o s' len d by (intro exI [of _ w] exI [of _ d] exI [of _ one_lift]) simp
qed



subsection \<open>build\_diffeomorphism\_model\<close>

declare str.simps [simp del]

lemma digit_inj:
  "i < 10 \<Longrightarrow> j < 10 \<Longrightarrow> ''0123456789'' ! i = ''0123456789'' ! j \<Longrightarrow> i = j"
  by (subst (asm) nth_eq_iff_index_eq) simp_all

lemma str_nonempty: "str k \<noteq> []"
  by (subst str.simps) simp

lemma str_inj: "str a = str b \<Longrightarrow> a = b"
proof (induction a arbitrary: b rule: str.induct)
  case (1 k)
  show ?case
  proof (cases "k < 10")
    case True
    then have k: "str k = [''0123456789'' ! k]" by (subst str.simps) simp
    show ?thesis
    proof (cases "b < 10")
      case True
      then have "str b = [''0123456789'' ! b]" by (subst str.simps) simp
      with k "1.prems" \<open>k < 10\<close> True show ?thesis by (auto dest: digit_inj)
    next
      case False
      then have "str b = str (b div 10) @ [''0123456789'' ! (b mod 10)]"
        by (subst str.simps) simp
      with k "1.prems" str_nonempty [of "b div 10"] show ?thesis by (cases "str (b div 10)") auto
    qed
  next
    case False
    then have k: "str k = str (k div 10) @ [''0123456789'' ! (k mod 10)]"
      by (subst str.simps) simp
    show ?thesis
    proof (cases "b < 10")
      case True
      then have "str b = [''0123456789'' ! b]" by (subst str.simps) simp
      with k "1.prems" str_nonempty [of "k div 10"] show ?thesis by (cases "str (k div 10)") auto
    next
      case b: False
      then have "str b = str (b div 10) @ [''0123456789'' ! (b mod 10)]"
        by (subst str.simps) simp
      with k "1.prems" have e: "str (k div 10) = str (b div 10)"
        and d: "''0123456789'' ! (k mod 10) = ''0123456789'' ! (b mod 10)"
        by auto
      from "1.IH" [OF False e] have "k div 10 = b div 10" .
      moreover from d have "k mod 10 = b mod 10" by (intro digit_inj) simp_all
      ultimately show ?thesis by (metis div_mult_mod_eq)
    qed
  qed
qed

lemma add_module_fresh:
  "name \<notin> fst ` set ms \<Longrightarrow> add_module ms name m = ms @ [(name, m)]"
  by (induction ms) auto

lemma block_names_disjoint: "ii \<noteq> jj \<Longrightarrow> block_names ii \<inter> block_names jj = {}"
  by (auto simp: block_names_def dest: str_inj)

lemma hidden_block_names: "fst ` set (hidden_block nhl H p ii) \<subseteq> block_names ii"
  by (auto simp: hidden_block_def block_names_def)

lemma hidden_step_fresh:
  assumes "0 \<le> p" "p \<le> 1" "fst ` set ms \<inter> block_names ii = {}"
  shows "hidden_step nhl H p ii ms = Inr (ms @ hidden_block nhl H p ii)"
proof -
  have a: "''dense_'' @ str (ii + 1) \<notin> fst ` set ms"
    and b: "''relu_'' @ str (ii + 1) \<notin> fst ` set ms"
    and c: "''dropout_'' @ str (ii + 1) \<notin> fst ` set ms"
    using assms(3) by (auto simp: block_names_def)
  have i: "(int ii < int nhl - 1) = (ii + 1 < nhl)" by auto
  show ?thesis
    using assms(1,2) a b c
    by (simp add: hidden_step_def Let_def add_module_fresh hidden_block_def nn_Dropout_def i
        del: of_nat_add of_nat_Suc)
qed

lemma hidden_loop_fresh:
  assumes "0 \<le> p" "p \<le> 1"
  shows "distinct iis \<Longrightarrow> (\<forall>ii \<in> set iis. fst ` set ms \<inter> block_names ii = {}) \<Longrightarrow>
         hidden_loop nhl H p iis ms = Inr (ms @ concat (map (hidden_block nhl H p) iis))"
proof (induction iis arbitrary: ms)
  case Nil
  then show ?case by simp
next
  case (Cons ii iis)
  have step: "hidden_step nhl H p ii ms = Inr (ms @ hidden_block nhl H p ii)"
    using hidden_step_fresh [OF assms] Cons.prems by simp
  have "\<forall>jj \<in> set iis. fst ` set (ms @ hidden_block nhl H p ii) \<inter> block_names jj = {}"
  proof
    fix jj assume jj: "jj \<in> set iis"
    then have "ii \<noteq> jj" using Cons.prems(1) by auto
    from block_names_disjoint [OF this] hidden_block_names [of nhl H p ii]
    have "fst ` set (hidden_block nhl H p ii) \<inter> block_names jj = {}" by blast
    moreover have "fst ` set ms \<inter> block_names jj = {}" using Cons.prems(2) jj by simp
    ultimately show "fst ` set (ms @ hidden_block nhl H p ii) \<inter> block_names jj = {}"
      by (simp add: image_Un Int_Un_distrib2)
  qed
  from Cons.IH [OF _ this] Cons.prems(1) step show ?case by simp
qed

lemma build_diffeomorphism_model_eq:
  assumes "0 \<le> p" "p \<le> 1"
  shows "build_diffeomorphism_model fwd self nhl H bs p =
           Inr (self\<lparr>self_diffeomorphism_model :=
                  Some \<lparr>modules = layout (self_n self) nhl H p, training = True,
                        param_dtype = Float64, forward = fwd\<rparr>\<rparr>)"
proof -
  let ?ms0 = "[(''0'', Linear (2 * self_n self) H), (''1'', ReLU)]"
  let ?blocks = "concat (map (hidden_block nhl H p) [0..<nhl])"
  have "\<forall>ii \<in> set [0..<nhl]. fst ` set ?ms0 \<inter> block_names ii = {}"
    by (simp add: block_names_def)
  from hidden_loop_fresh [OF assms _ this]
  have loop: "hidden_loop nhl H p [0..<nhl] ?ms0 = Inr (?ms0 @ ?blocks)" by simp
  have "fst ` set ?blocks \<subseteq> (\<Union>ii. block_names ii)"
    using hidden_block_names by fastforce
  then have "''output'' \<notin> fst ` set ?blocks"
    by (auto simp: block_names_def)
  then have "''output'' \<notin> fst ` set (?ms0 @ ?blocks)" by (simp add: image_Un)
  from add_module_fresh [OF this]
  have out: "add_module (?ms0 @ ?blocks) ''output'' (Linear H (self_n self)) =
               layout (self_n self) nhl H p"
    by (simp add: layout_def)
  show ?thesis
    unfolding build_diffeomorphism_model_def Let_def loop bind_err_simps out by simp
qed






lemma accepts_layout:
  "modules m = layout n nhl H p \<Longrightarrow> accepts m k = (k = 2 * n)"
  by (simp add: accepts_def layout_def)

subsection \<open>The scenario\<close>

lemma mk_nd_cong:
  "(\<And>i j. i < r \<Longrightarrow> j < c \<Longrightarrow> f i j = g i j) \<Longrightarrow> mk_nd r c f = mk_nd r c g"
  by (simp add: mk_nd_def)

lemma np_sub1_same_length:
  "length u = length v \<Longrightarrow> \<exists>d. np_sub1 u v = Inr d \<and> length d = length u"
  by (simp add: np_sub1_def)

lemma construct_basis_ok:
  assumes "construct_linear_eigfuncs eig s0 = Inr (f, s')"
    and "length u = self_n s0" "length l = self_n s0"
  shows "\<exists>s1. construct_basis eig s0 (Some u) (Some l) = Inr s1"
proof -
  from construct_linear_eigfuncs_Inr [OF assms(1)] have n: "self_n s' = self_n s0" by auto
  obtain d where "np_sub1 u l = Inr d" "length d = self_n s0"
    using np_sub1_same_length [of u l] assms(2,3) by auto
  then show ?thesis
    using assms(1) n
    by (simp add: construct_basis_def construct_scaling_function_def reshape_n1_def Let_def)
qed

lemma based_ok: "\<exists>s. based = Inr s"
proof -
  obtain f s where "construct_linear_eigfuncs eig_diagonal fresh = Inr (f, s)"
    using fresh_eigfuncs_ok by blast
  from construct_basis_ok [OF this, of "[1, 1]" "[-1, -1]"] show ?thesis
    by (simp add: based_def)
qed

lemma based_fields:
  assumes "based = Inr s"
  shows "self_n s = 2" "self_diffeomorphism_model s = None" "self_Nlift s = Some 4"
  using construct_basis_fields [OF assms [unfolded based_def]]
  by (auto simp: power_rows_2_1')

lemma scenario_eq:
  assumes "based = Inr s"
  shows "scenario = Inr (s\<lparr>self_diffeomorphism_model :=
            Some \<lparr>modules = layout 2 2 50 (1 / 10), training = True,
                  param_dtype = Float64, forward = zero_net\<rparr>\<rparr>)"
  unfolding scenario_def assms bind_err_simps
  using based_fields(1) [OF assms] by (simp add: build_diffeomorphism_model_eq)

lemma origin_simps [simp]: "nrows origin = 2" "ncols origin = 1" "wf_nd origin"
  by (simp_all add: origin_def np_array_def wf_nd_def)

theorem diffeomorphism_returns_q_witness:
  "\<not> isl scenario \<and>
   self_diffeomorphism_model (projr scenario) \<noteq> None \<and>
   accepts (the (self_diffeomorphism_model (projr scenario))) (2 * self_n (projr scenario)) \<and>
   wf_nd origin \<and> nrows origin = self_n (projr scenario) \<and> ncols origin = ncols origin \<and>
   returned (diffeomorphism (projr scenario) origin origin) = Inr origin"
proof -
  obtain s where b: "based = Inr s" using based_ok by blast
  let ?m = "\<lparr>modules = layout 2 2 50 (1 / 10), training = True,
             param_dtype = Float64, forward = zero_net\<rparr>"
  let ?sc = "s\<lparr>self_diffeomorphism_model := Some ?m\<rparr>"
  have sc: "scenario = Inr ?sc" by (rule scenario_eq [OF b])
  have n: "self_n ?sc = 2" using based_fields(1) [OF b] by simp
  have m: "self_diffeomorphism_model ?sc = Some ?m" by simp
  have acc: "accepts ?m (2 * self_n ?sc)" by (simp add: n accepts_layout)
  have "diffeomorphism ?sc origin origin =
          Inr (origin, ?sc\<lparr>self_diffeomorphism_model := Some (net_eval ?m)\<rparr>)"
    by (rule diffeomorphism_returns_q [OF m acc]) (simp_all add: n)
  then show ?thesis unfolding sc using n acc by simp
qed

lemma power_zero_rows:
  "k = 1 \<or> k = 2 \<Longrightarrow>
   bind_err (np_power (mk_nd k 1 (\<lambda>i j. 0)) (np_transpose (np_array (power_rows 2 1))))
     (\<lambda>P. Inr (np_prod_axis0 P)) = Inr [1, 0, 0, 0]"
  by (erule disjE; hypsubst) code_simp+

lemma linfunc_zero:
  assumes "nrows w = n"
  shows "linfunc w (mk_nd n 1 (\<lambda>i j. 0)) = Inr (mk_nd (ncols w) 1 (\<lambda>i j. 0))"
proof -
  let ?Z = "mk_nd n 1 (\<lambda>i j. 0 :: real)"
  let ?S = "\<lambda>i j. sum_list (map (\<lambda>k. item (np_transpose w) i k * item ?Z k j) [0..<n])"
  have zero: "?S i j = 0" if "j < 1" for i j
  proof -
    have eq: "map (\<lambda>k. item (np_transpose w) i k * item ?Z k j) [0..<n] = map (\<lambda>k. 0) [0..<n]"
      using that by (intro map_cong) simp_all
    show ?thesis unfolding eq by simp
  qed
  have "linfunc w ?Z = Inr (mk_nd (ncols w) 1 ?S)"
    using assms by (simp add: linfunc_def np_dot_def np_transpose_def)
  moreover have "mk_nd (ncols w) 1 ?S = mk_nd (ncols w) 1 (\<lambda>i j. 0)"
    by (rule mk_nd_cong) (rule zero)
  ultimately show ?thesis by simp
qed

lemma eigfunc_lin_zero:
  assumes "nrows w = 2" "ncols w = 1 \<or> ncols w = 2"
  shows "eigfunc_lin w (np_array (power_rows 2 1)) (mk_nd 2 1 (\<lambda>i j. 0)) = Inr [1, 0, 0, 0]"
  using power_zero_rows [OF assms(2)] linfunc_zero [OF assms(1)]
  by (simp add: eigfunc_lin_def)

lemma eigfunc_lin_Inr_shape:
  assumes "eigfunc_lin w P q = Inr z"
  shows "nrows w = nrows q \<and> bc_compat (ncols w) (ncols P)"
  using assms
  by (auto simp: eigfunc_lin_def linfunc_def np_dot_def np_power_def broadcast2_def
      np_transpose_def bind_err_Inr_iff split: if_splits)

lemma item_origin: "i < 2 \<Longrightarrow> item origin i 0 = 0"
  by (auto simp: origin_def np_array_def item_def less_Suc_eq numeral_2_eq_2)

lemma column_origin: "column_nd origin 0 = mk_nd 2 1 (\<lambda>i j. 0)"
  unfolding column_nd_def origin_simps by (rule mk_nd_cong) (simp add: item_origin)

lemma divide_zero: "np_divide (mk_nd 2 1 (\<lambda>i j. 0)) (mk_nd 2 1 h) = Inr (mk_nd 2 1 (\<lambda>i j. 0))"
proof -
  have "mk_nd 2 1 (\<lambda>i j. bc_at (mk_nd 2 1 (\<lambda>i j. 0 :: real)) i j / bc_at (mk_nd 2 1 h) i j) =
        mk_nd 2 1 (\<lambda>i j. 0)"
    by (rule mk_nd_cong) (simp add: bc_at_def)
  then show ?thesis by (simp add: np_divide_def broadcast2_def)
qed

lemma basis_origin:
  assumes cb: "construct_basis eig (init 2 1 A BK warns) ub lb = Inr s1"
    and self: "self = s1\<lparr>self_diffeomorphism_model := Some m\<rparr>"
    and acc: "accepts m 4"
  shows "basis self (column_nd origin 0) (column_nd origin 0) = Inr ([1, 0, 0, 0], eval_model self)"
proof -
  let ?P = "np_array (power_rows 2 1)"
  from construct_basis_fields [OF cb] obtain w d one_lift where
    f: "self_eigfunc_lin s1 = Some (eigfunc_lin w ?P)"
    and o: "eigfunc_lin w ?P (np_ones 2 1) = Inr one_lift"
    and g: "self_scale_func s1 = Some (\<lambda>q. np_divide q (mk_nd 2 1 (\<lambda>i j. d ! i)))"
    by (auto simp: init_def)
  from eigfunc_lin_Inr_shape [OF o] have w: "nrows w = 2" "ncols w = 1 \<or> ncols w = 2"
    by (auto simp: np_ones_def bc_compat_def)
  have "basis self (column_nd origin 0) (column_nd origin 0) =
          bind_err (np_divide (column_nd origin 0) (mk_nd 2 1 (\<lambda>i j. d ! i)))
            (\<lambda>y. bind_err (eigfunc_lin w ?P y) (\<lambda>z. Inr (z, eval_model self)))"
    using self f g acc by (intro basis_value [where m = m]) simp_all
  then show ?thesis
    unfolding column_origin divide_zero bind_err_simps eigfunc_lin_zero [OF w] .
qed

lemma upt_0_1: "[0..<1] = [0]"
  by simp

lemma lift_origin_aux:
  assumes cb: "construct_basis eig (init 2 1 A BK warns) ub lb = Inr s1"
    and self: "self = s1\<lparr>self_diffeomorphism_model := Some m\<rparr>"
    and acc: "accepts m 4"
  shows "lift self origin origin = Inr (np_array [[1, 0, 0, 0]], eval_model self)"
proof -
  from construct_basis_fields [OF cb] have b: "self_basis s1" and n: "self_n s1 = 2"
    by (auto simp: init_def)
  have "lift_item self origin origin 0 =
          (if self_basis self then basis self (column_nd origin 0) (column_nd origin 0)
           else Inl TypeError)"
    using self n by (intro lift_item_eq) simp_all
  then have "lift_item self origin origin 0 = Inr ([1, 0, 0, 0], eval_model self)"
    using basis_origin [OF cb self acc] b self by simp
  then show ?thesis by (simp add: lift_def)
qed

lemma scenario_state:
  "\<exists>sb. based = Inr sb \<and> scenario = Inr (sb\<lparr>self_diffeomorphism_model := Some scenario_net\<rparr>)"
  using based_ok scenario_eq by (auto simp: scenario_net_def)

lemma accepts_scenario_net [simp]: "accepts scenario_net k = (k = 4)"
  by (simp add: scenario_net_def accepts_layout)

text \<open>
  Claim C4. In the scenario \<open>n = 2\<close>, \<open>max_power = 1\<close>, \<open>ub = [1,1]\<close>, \<open>lb = [-1,-1]\<close>, whatever
  eigenvectors \<open>eig\<close> returned, \<open>lift\<close> of the single sample at the origin is the
  \<open>1 \<times> 4\<close> array \<open>[[1, 0, 0, 0]]\<close>: the basis function with all powers zero is \<open>0^0 * 0^0 = 1\<close>,
  the other three are \<open>0\<close>. The claim's vector of four zeros is not what the code returns.
\<close>

theorem lift_origin:
  assumes "construct_basis eig (init 2 1 A BK warns) (Some [1, 1]) (Some [-1, -1]) = Inr s1"
    and "self = s1\<lparr>self_diffeomorphism_model := Some m\<rparr>"
    and "accepts m 4"
  shows "returned (lift self origin origin) = Inr (np_array [[1, 0, 0, 0]])"
  using lift_origin_aux [OF assms] by simp

theorem lift_origin_witness:
  "\<not> isl based \<and> \<not> isl scenario \<and>
   accepts (the (self_diffeomorphism_model (projr scenario))) 4 \<and>
   returned (lift (projr scenario) origin origin) = Inr (np_array [[1, 0, 0, 0]])"
proof -
  obtain sb where b: "based = Inr sb"
    and sc: "scenario = Inr (sb\<lparr>self_diffeomorphism_model := Some scenario_net\<rparr>)"
    using scenario_state by blast
  have cb: "construct_basis eig_diagonal (init 2 1 A_diag BK_zeros []) (Some [1, 1]) (Some [-1, -1]) = Inr sb"
    using b by (simp add: based_def fresh_def)
  have acc: "accepts scenario_net 4" by simp
  from lift_origin [OF cb refl acc] show ?thesis
    unfolding b sc by simp
qed

theorem lift_origin_counterexample:
  "\<not> isl scenario \<and> \<not> isl (lift (projr scenario) origin origin) \<and>
   concat (entries (fst (projr (lift (projr scenario) origin origin)))) = [1, 0, 0, 0] \<and>
   concat (entries (fst (projr (lift (projr scenario) origin origin)))) \<noteq> [0, 0, 0, 0]"
proof -
  obtain sb where b: "based = Inr sb"
    and sc: "scenario = Inr (sb\<lparr>self_diffeomorphism_model := Some scenario_net\<rparr>)"
    using scenario_state by blast
  have cb: "construct_basis eig_diagonal (init 2 1 A_diag BK_zeros []) (Some [1, 1]) (Some [-1, -1]) = Inr sb"
    using b by (simp add: based_def fresh_def)
  have acc: "accepts scenario_net 4" by simp
  from lift_origin_aux [OF cb refl acc] show ?thesis
    unfolding sc by (simp add: np_array_def)
qed




subsection \<open>lift without a model, and the output of the network\<close>

lemma on_state_simps [simp]:
  "on_state g (Inl e) = Inl e" "on_state g (Inr (v, s)) = Inr (v, g s)"
  by (simp_all add: on_state_def)

lemma returned_on_state [simp]: "returned (on_state g r) = returned r"
  by (cases r) auto

lemma with_forward_simps [simp]:
  "self_n (with_forward f s) = self_n s" "self_basis (with_forward f s) = self_basis s"
  "self_eigfunc_lin (with_forward f s) = self_eigfunc_lin s"
  "self_scale_func (with_forward f s) = self_scale_func s"
  "self_diffeomorphism_model (with_forward f s) =
     map_option (\<lambda>m. m\<lparr>forward := f\<rparr>) (self_diffeomorphism_model s)"
  by (simp_all add: with_forward_def)

lemma accepts_forward [simp]: "accepts (m\<lparr>forward := f\<rparr>) k = accepts m k"
  by (simp add: accepts_def)

lemma eval_model_with_forward: "eval_model (with_forward f s) = with_forward f (eval_model s)"
  by (cases "self_diffeomorphism_model s")
     (simp_all add: eval_model_def with_forward_def net_eval_def)

lemma diffeomorphism_with_forward:
  "diffeomorphism (with_forward f s) q t = on_state (with_forward f) (diffeomorphism s q t)"
  by (simp add: diffeomorphism_eq eval_model_with_forward split: option.splits)

lemma bind_on_state:
  "bind_err (on_state g r) h = bind_err r (\<lambda>(v, s). h (v, g s))"
  by (cases r) auto

lemma basis_with_forward:
  "basis (with_forward f s) q t = on_state (with_forward f) (basis s q t)"
proof (cases "self_eigfunc_lin s")
  case None
  then show ?thesis by (simp add: basis_def)
next
  case (Some e)
  show ?thesis
  proof (cases "diffeomorphism s q t")
    case (Inl err)
    then show ?thesis using Some by (simp add: basis_def diffeomorphism_with_forward)
  next
    case (Inr r)
    obtain d s' where r: "r = (d, s')" by (cases r)
    show ?thesis
    proof (cases "self_scale_func s")
      case None
      then show ?thesis using Some Inr r by (simp add: basis_def diffeomorphism_with_forward)
    next
      case g: (Some g)
      show ?thesis
      proof (cases "g d")
        case (Inl err)
        then show ?thesis using Some Inr r g by (simp add: basis_def diffeomorphism_with_forward)
      next
        case gd: (Inr y)
        show ?thesis
          using Some Inr r g gd
          by (cases "e y") (simp_all add: basis_def diffeomorphism_with_forward)
      qed
    qed
  qed
qed

lemma lift_item_with_forward:
  "lift_item (with_forward f s) q t ii = on_state (with_forward f) (lift_item s q t ii)"
proof (cases "column q ii")
  case (Inl e)
  then show ?thesis by (simp add: lift_item_def)
next
  case c: (Inr c)
  show ?thesis
  proof (cases "reshape_n1 c (self_n s)")
    case (Inl e)
    then show ?thesis using c by (simp add: lift_item_def)
  next
    case qi: (Inr qi)
    show ?thesis
    proof (cases "column t ii")
      case (Inl e)
      then show ?thesis using c qi by (simp add: lift_item_def)
    next
      case cd: (Inr cd)
      show ?thesis
        using c qi cd
        by (cases "reshape_n1 cd (self_n s)") (simp_all add: lift_item_def basis_with_forward)
    qed
  qed
qed

lemma lift_loop_with_forward:
  "lift_loop (with_forward f s) q t iis = on_state (with_forward f) (lift_loop s q t iis)"
proof (induction iis arbitrary: s)
  case Nil
  then show ?case by simp
next
  case (Cons ii iis)
  show ?case
  proof (cases "lift_item s q t ii")
    case (Inl e)
    then show ?thesis by (simp add: lift_item_with_forward)
  next
    case (Inr r)
    obtain z s1 where r: "r = (z, s1)" by (cases r)
    show ?thesis
      using Inr r Cons.IH [of s1]
      by (cases "lift_loop s1 q t iis") (auto simp: lift_item_with_forward)
  qed
qed

lemma lift_with_forward:
  "lift (with_forward f s) q t = on_state (with_forward f) (lift s q t)"
  by (cases "lift_loop s q t [0..<ncols q]") (auto simp: lift_def lift_loop_with_forward)

lemma lift_forward_irrelevant:
  "returned (lift (self\<lparr>self_diffeomorphism_model := Some (m\<lparr>forward := f1\<rparr>)\<rparr>) q q_d) =
   returned (lift (self\<lparr>self_diffeomorphism_model := Some (m\<lparr>forward := f2\<rparr>)\<rparr>) q q_d)"
proof -
  let ?s = "self\<lparr>self_diffeomorphism_model := Some m\<rparr>"
  have "self\<lparr>self_diffeomorphism_model := Some (m\<lparr>forward := f\<rparr>)\<rparr> = with_forward f ?s" for f
    by (simp add: with_forward_def)
  then show ?thesis by (simp add: lift_with_forward)
qed

lemma basis_no_model: "self_diffeomorphism_model self = None \<Longrightarrow> isl (basis self x t)"
  by (simp add: basis_def diffeomorphism_eq split: option.splits)

lemma lift_item_no_model:
  "self_diffeomorphism_model self = None \<Longrightarrow> isl (lift_item self q q_d ii)"
proof -
  assume m: "self_diffeomorphism_model self = None"
  have b: "isl (basis self x t)" for x t by (rule basis_no_model [OF m])
  show ?thesis
  proof (cases "column q ii")
    case (Inl e)
    then show ?thesis by (simp add: lift_item_def)
  next
    case c: (Inr c)
    show ?thesis
    proof (cases "reshape_n1 c (self_n self)")
      case (Inl e)
      then show ?thesis using c by (simp add: lift_item_def)
    next
      case qi: (Inr qi)
      show ?thesis
      proof (cases "column q_d ii")
        case (Inl e)
        then show ?thesis using c qi by (simp add: lift_item_def)
      next
        case cd: (Inr cd)
        show ?thesis
          using c qi cd b
          by (cases "reshape_n1 cd (self_n self)") (simp_all add: lift_item_def)
      qed
    qed
  qed
qed

lemma lift_no_model:
  assumes "self_diffeomorphism_model self = None" "0 < ncols q"
  shows "isl (lift self q q_d)"
proof -
  have "[0..<ncols q] = 0 # [1..<ncols q]" using assms(2) by (simp add: upt_conv_Cons)
  moreover have "isl (lift_loop self q q_d (0 # [1..<ncols q]))"
    by (rule lift_loop_fails) (rule lift_item_no_model [OF assms(1)])
  ultimately show ?thesis
    by (cases "lift_loop self q q_d [0..<ncols q]") (simp_all add: lift_def)
qed

lemma lift_no_model_error:
  assumes "self_diffeomorphism_model self = None" "0 < ncols q" "0 < ncols q_d"
    and "nrows q = self_n self" "nrows q_d = self_n self"
    and "self_basis self" "self_eigfunc_lin self = Some f"
  shows "lift self q q_d = Inl AttributeError"
proof -
  have "lift_item self q q_d 0 = basis self (column_nd q 0) (column_nd q_d 0)"
    using lift_item_eq [OF assms(2,3,4,5)] assms(6) by simp
  also have "\<dots> = Inl AttributeError"
    using assms(1,7) by (simp add: basis_def diffeomorphism_eq)
  finally have "lift_loop self q q_d (0 # [1..<ncols q]) = Inl AttributeError" by simp
  moreover have "[0..<ncols q] = 0 # [1..<ncols q]" using assms(2) by (simp add: upt_conv_Cons)
  ultimately show ?thesis by (simp add: lift_def)
qed

lemma lift_no_samples: "ncols q = 0 \<Longrightarrow> lift self q q_d = Inr (np_array [], self)"
  by (simp add: lift_def)

text \<open>
  Claim C9. While the model has not been built, the composed \<open>basis\<close> always fails, and
  \<open>lift\<close> fails whenever \<open>q\<close> has at least one column; on an object that went through
  \<open>construct_basis\<close>, with \<open>q\<close> and \<open>q_d\<close> of \<open>n\<close> rows, the failure is the
  \<open>AttributeError\<close> of \<open>self.diffeomorphism_model.eval()\<close>. With no column \<open>lift\<close> returns
  an empty array and leaves the object as it was. Once a model is there, what \<open>lift\<close>
  returns does not depend on the function the model computes.
\<close>

theorem lift_needs_model:
  assumes "self_diffeomorphism_model self = None"
  shows "isl (basis self x t) \<and>
         (0 < ncols q \<longrightarrow> isl (lift self q q_d)) \<and>
         (0 < ncols q \<and> 0 < ncols q_d \<and> nrows q = self_n self \<and> nrows q_d = self_n self \<and>
          self_basis self \<and> self_eigfunc_lin self \<noteq> None
            \<longrightarrow> lift self q q_d = Inl AttributeError) \<and>
         (ncols q = 0 \<longrightarrow> lift self q q_d = Inr (np_array [], self)) \<and>
         returned (lift (self\<lparr>self_diffeomorphism_model := Some (m\<lparr>forward := f1\<rparr>)\<rparr>) q q_d) =
         returned (lift (self\<lparr>self_diffeomorphism_model := Some (m\<lparr>forward := f2\<rparr>)\<rparr>) q q_d)"
  using basis_no_model [OF assms] lift_no_model [OF assms] lift_no_model_error [OF assms]
    lift_no_samples lift_forward_irrelevant
  by auto

theorem lift_needs_model_witness:
  "\<not> isl based \<and> self_diffeomorphism_model (projr based) = None \<and> 0 < ncols origin \<and>
   nrows origin = self_n (projr based) \<and> self_basis (projr based) \<and>
   self_eigfunc_lin (projr based) \<noteq> None \<and>
   isl (basis (projr based) origin origin) \<and>
   lift (projr based) origin origin = Inl AttributeError"
proof -
  obtain sb where b: "based = Inr sb" using based_ok by blast
  have m: "self_diffeomorphism_model sb = None" and n: "self_n sb = 2"
    using based_fields [OF b] by simp_all
  from construct_basis_fields [OF b [unfolded based_def]]
  have f: "self_basis sb" "self_eigfunc_lin sb \<noteq> None" by auto
  from lift_needs_model [OF m, of origin origin origin origin] show ?thesis
    unfolding b using m n f by simp
qed

theorem lift_needs_model_counterexample:
  "\<not> isl based \<and> self_diffeomorphism_model (projr based) = None \<and>
   nrows no_samples = self_n (projr based) \<and> ncols no_samples = 0 \<and>
   \<not> isl (lift (projr based) no_samples no_samples) \<and>
   lift (projr based) no_samples no_samples = Inr (np_array [], projr based)"
proof -
  obtain sb where b: "based = Inr sb" using based_ok by blast
  have m: "self_diffeomorphism_model sb = None" and n: "self_n sb = 2"
    using based_fields [OF b] by simp_all
  show ?thesis
    unfolding b using m n by (simp add: no_samples_def lift_no_samples)
qed

subsection \<open>The built network\<close>







subsection \<open>Complex eigenvalues\<close>

lemma suppress_complex_real:
  assumes "\<not> list_ex iscomplex lambd" and "\<not> any_nd iscomplex w"
  shows "map complex_of_real (fst (suppress_complex lambd w warns)) = lambd"
    and "map_nd complex_of_real (fst (snd (suppress_complex lambd w warns))) = w"
proof -
  have re: "complex_of_real (Re z) = z" if "\<not> iscomplex z" for z
    using that by (simp add: iscomplex_def complex_eq_iff)
  have "\<forall>z \<in> set lambd. \<not> iscomplex z"
    using assms(1) by (simp add: list_ex_iff)
  then show "map complex_of_real (fst (suppress_complex lambd w warns)) = lambd"
    by (simp add: suppress_complex_def re map_idI)
  have "\<forall>r \<in> set (entries w). \<forall>z \<in> set r. \<not> iscomplex z"
    using assms(2) by (simp add: any_nd_def list_ex_iff)
  then have "map (map (\<lambda>z. complex_of_real (Re z))) (entries w) = entries w"
    by (intro map_idI) (simp add: re)
  then show "map_nd complex_of_real (fst (snd (suppress_complex lambd w warns))) = w"
    by (simp add: suppress_complex_def map_nd_def comp_def)
qed

lemma construct_linear_eigfuncs_silent:
  "construct_linear_eigfuncs eig self = Inr (f, self') \<Longrightarrow> emitted self' = emitted self"
  by (drule construct_linear_eigfuncs_Inr) auto

lemma rot_system_simps [simp]:
  "self_n rot_system = 2" "self_max_power rot_system = 1" "self_A_cl rot_system = A_rot"
  "emitted rot_system = []"
  by (simp_all add: rot_system_def init_def)

lemma rot_eigfuncs_ok: "\<exists>f s. construct_linear_eigfuncs eig_rotation rot_system = Inr (f, s)"
proof (rule construct_linear_eigfuncs_ok)
  show "eig_rotation (self_A_cl rot_system) =
          Inr ([\<i>, - \<i>],
            np_array [[complex_of_real (1 / sqrt 2), complex_of_real (1 / sqrt 2)],
                      [- \<i> * complex_of_real (item A_rot 1 0 / sqrt 2),
                       \<i> * complex_of_real (item A_rot 1 0 / sqrt 2)]])"
    by (simp add: eig_rotation_def)
  show "eig_rotation (np_transpose (self_A_cl rot_system)) =
          Inr ([\<i>, - \<i>],
            np_array [[complex_of_real (1 / sqrt 2), complex_of_real (1 / sqrt 2)],
                      [- \<i> * complex_of_real (item (np_transpose A_rot) 1 0 / sqrt 2),
                       \<i> * complex_of_real (item (np_transpose A_rot) 1 0 / sqrt 2)]])"
    by (simp add: eig_rotation_def)
qed (simp_all add: np_array_def)

text \<open>
  Claim C5 fails on the code. For the rotation generator \<open>[[0,-1],[1,0]]\<close> the eigenvalues
  are \<open>\<plusminus>i\<close>: the test of line 59 holds, \<open>construct_linear_eigfuncs\<close> returns, and the list
  of issued warnings is as empty as before. \<open>Warning(...)\<close> on line 60 builds an exception
  object that is neither raised nor passed to \<open>warnings.warn\<close>.
\<close>

theorem complex_eigenvalues_no_warning:
  "list_ex iscomplex (fst (projr (eig_rotation (self_A_cl rot_system)))) \<and>
   \<not> isl (construct_linear_eigfuncs eig_rotation rot_system) \<and>
   emitted rot_system = [] \<and>
   emitted (snd (projr (construct_linear_eigfuncs eig_rotation rot_system))) = []"
proof -
  obtain f s where ok: "construct_linear_eigfuncs eig_rotation rot_system = Inr (f, s)"
    using rot_eigfuncs_ok by blast
  from construct_linear_eigfuncs_silent [OF ok] show ?thesis
    unfolding ok by (simp add: eig_rotation_def iscomplex_def)
qed

subsection \<open>The validation tensor\<close>

text \<open>
  Claim C8 fails on the code. On one trajectory of two samples, with \<open>differentiate_vec\<close>
  returning the derivative \<open>1\<close>, the training input rows are (shifted state, shifted desired
  state, derivative), and the validation input rows built from the same data are (shifted
  state, derivative, derivative): line 171 concatenates \<open>X_dot_val\<close> where line 151
  concatenates \<open>X_d\<close>. The regression targets of the two paths agree.
\<close>

theorem validation_tensor_layout:
  "fit_train_data diff_ex decay_system X_ex t_ex Xd_ex =
     Inr (\<lparr>nrows = 2, ncols = 3, entries = [[-6, -2, 1], [-5, 0, 1]]\<rparr>,
          \<lparr>nrows = 2, ncols = 1, entries = [[-5], [-4]]\<rparr>) \<and>
   fit_val_data diff_ex decay_system X_ex t_ex Xd_ex =
     Inr (\<lparr>nrows = 2, ncols = 3, entries = [[-6, 1, 1], [-5, 1, 1]]\<rparr>,
          \<lparr>nrows = 2, ncols = 1, entries = [[-5], [-4]]\<rparr>)"
  by code_simp

end
